theory Spec2Isabelle
  imports Main
begin

section \<open>The feed repository of the social-feed backend\<close>

text \<open>
  A shallow embedding of \<open>src/modules/feed/feed.repository.ts\<close> (class \<open>FeedRepository\<close>).
  The relational store is a record of tables, each table the list of its rows in storage
  order. Every repository method becomes a function from the store to a result: a method
  that can throw returns \<open>error + _\<close>, and as the enclosing \<open>dataSource.transaction\<close> rolls
  back on a throw, the result \<open>Inl\<close> carries no store (the caller keeps the one it had).
  The two methods that hand callbacks to \<open>Promise.all\<close> and wait for them, \<open>createFeed\<close>
  and \<open>updateFeed\<close>, return an option of such a result, \<open>None\<close> standing for a call that
  never returns.

  Conventions of the embedding:
  \<^item> every \<open>await\<close> finishes before the next statement of the same function starts;
  \<^item> the callbacks handed to \<open>Promise.all (xs.map (async ...))\<close> are started in array
    order and each runs up to its first \<open>await\<close> before any of them continues; the
    operations they wait for complete in the order in which they were issued, so the
    callbacks advance in rounds (subsection ``Asynchronous callbacks'');
  \<^item> a read issued through a repository sees the rows the transaction has written so far;
  \<^item> a query without \<open>ORDER BY\<close> returns the rows in storage order, and \<open>ORDER BY\<close>
    keeps rows with equal keys in storage order;
  \<^item> JavaScript numbers that hold counters, pages and limits are integers (\<open>int\<close>),
    identifiers are naturals;
  \<^item> the surrogate keys of the join rows (image, like, bookmark, mapper) are never read
    by the repository and are left out of the rows.
\<close>

subsection \<open>Enumerations and entities\<close>

datatype YN = Y | N

text \<open>
  \<open>FEED_STATUS\<close> is declared in \<open>src/common\<close>; the repository names its members
  \<open>ACTIVE\<close> and \<open>DELETED\<close>, any further member is an \<open>OTHER_STATUS\<close>.
\<close>

datatype FEED_STATUS = ACTIVE | DELETED | OTHER_STATUS string

datatype error = TypeError

record User =
  user_id :: nat
  feedCount :: int

record Feed =
  feed_id :: nat
  userId :: nat
  description :: string
  likeCount :: int
  showLikeCountYn :: YN
  commentCount :: int
  displayYn :: YN
  status :: FEED_STATUS
  createdAt :: int
  updatedAt :: int

record FeedImage =
  img_feedId :: nat
  img_image :: string
  sortOrder :: int

record FeedLike =
  like_feedId :: nat
  like_userId :: nat

record FeedBookmark =
  bm_feedId :: nat
  bm_userId :: nat

record Tag =
  tag_id :: nat
  tagName :: string

record MapperFeedTag =
  map_feedId :: nat
  map_tagId :: nat

text \<open>
  A fetched feed with the query-time fields that \<open>processFeedItem\<close> attaches. A tag that
  \<open>tagRepository.findOne\<close> does not find is \<open>null\<close> (\<open>None\<close>); a flag that was never
  assigned is \<open>undefined\<close> (\<open>None\<close>).
\<close>

record FeedFindOneVo =
  vo_feed :: Feed
  vo_feedImages :: "FeedImage list"
  vo_tags :: "Tag option list"
  likedYn :: "bool option"
  bookmarkedYn :: "bool option"

record db =
  users :: "User list"
  feeds :: "Feed list"
  feedImages :: "FeedImage list"
  feedLikes :: "FeedLike list"
  feedBookmarks :: "FeedBookmark list"
  tags :: "Tag list"
  mapperFeedTags :: "MapperFeedTag list"
  nextFeedId :: nat
  nextTagId :: nat

subsection \<open>Request objects\<close>

record FeedListDto =
  list_tagName :: "string option"
  page :: int
  limit :: int



record FeedUpdateDto =
  update_description :: string
  update_tagNames :: "string list option"

record FeedUpdateStatusDto =
  update_status :: FEED_STATUS

text \<open>
  Modelled from the spec: \<open>generatePaginatedResponse\<close> and \<open>PaginateResponseVo\<close> live in
  \<open>src/core\<close>, which is not part of the sources; the spec gives the envelope as the items
  of the current page, the total item count, the current page and the limit.
\<close>

record 'a PaginateResponseVo =
  items :: "'a list"
  totalCount :: nat
  resp_page :: int
  resp_limit :: int

definition generatePaginatedResponse ::
  "'a list \<Rightarrow> nat \<Rightarrow> int \<Rightarrow> int \<Rightarrow> 'a PaginateResponseVo" where
  "generatePaginatedResponse xs cnt p l =
     \<lparr>items = xs, totalCount = cnt, resp_page = p, resp_limit = l\<rparr>"

subsection \<open>Primitive queries\<close>

text \<open>\<open>userRepository.findOne ({where: {id}})\<close>\<close>

definition findUser :: "db \<Rightarrow> nat \<Rightarrow> User option" where
  "findUser s i = find (\<lambda>u. user_id u = i) (users s)"

text \<open>\<open>transaction.save (user)\<close> for a user that was read from the store: an update by key.\<close>

definition saveUser :: "User \<Rightarrow> db \<Rightarrow> db" where
  "saveUser u s = s\<lparr>users := map (\<lambda>r. if user_id r = user_id u then u else r) (users s)\<rparr>"

text \<open>\<open>feedRepository.findOne ({where: {id}})\<close>\<close>

definition findFeed :: "db \<Rightarrow> nat \<Rightarrow> Feed option" where
  "findFeed s i = find (\<lambda>f. feed_id f = i) (feeds s)"

text \<open>
  \<open>createQueryBuilder ('feed').innerJoinAndSelect ('feed.user', 'user')
  .where ('feed.id = :id').getOne ()\<close>: the inner join drops a feed whose author row is
  missing.
\<close>

definition getOneFeed :: "db \<Rightarrow> nat \<Rightarrow> Feed option" where
  "getOneFeed s i = find (\<lambda>f. feed_id f = i \<and> findUser s (userId f) \<noteq> None) (feeds s)"

text \<open>\<open>transaction.save (feed)\<close> for a feed that was read from the store.\<close>

definition saveFeed :: "Feed \<Rightarrow> db \<Rightarrow> db" where
  "saveFeed f s = s\<lparr>feeds := map (\<lambda>r. if feed_id r = feed_id f then f else r) (feeds s)\<rparr>"

text \<open>\<open>tagRepository.findOne ({where: {tagName}})\<close> and \<open>({where: {id}})\<close>\<close>

definition findTagByName :: "db \<Rightarrow> string \<Rightarrow> Tag option" where
  "findTagByName s n = find (\<lambda>t. tagName t = n) (tags s)"

definition findTagById :: "db \<Rightarrow> nat \<Rightarrow> Tag option" where
  "findTagById s i = find (\<lambda>t. tag_id t = i) (tags s)"

subsection \<open>Hydration\<close>

text \<open>The source names of the four helpers start with two underscores.\<close>

definition get_feed_tags :: "db \<Rightarrow> nat \<Rightarrow> Tag option list" where
  "get_feed_tags s feedId =
     map (\<lambda>m. findTagById s (map_tagId m))
       (filter (\<lambda>m. map_feedId m = feedId) (mapperFeedTags s))"

definition get_feed_images :: "db \<Rightarrow> nat \<Rightarrow> FeedImage list" where
  "get_feed_images s feedId = filter (\<lambda>i. img_feedId i = feedId) (feedImages s)"

definition get_feed_like_by_user :: "db \<Rightarrow> nat \<Rightarrow> nat \<Rightarrow> bool" where
  "get_feed_like_by_user s uid feedId =
     list_ex (\<lambda>l. like_feedId l = feedId \<and> like_userId l = uid) (feedLikes s)"

definition get_feed_bookmark_by_user :: "db \<Rightarrow> nat \<Rightarrow> nat \<Rightarrow> bool" where
  "get_feed_bookmark_by_user s uid feedId =
     list_ex (\<lambda>b. bm_feedId b = feedId \<and> bm_userId b = uid) (feedBookmarks s)"

text \<open>
  \<open>if (userId)\<close> is JavaScript truthiness: the flags are set when a user id is given and
  is not \<open>0\<close>.
\<close>

definition truthy_id :: "nat option \<Rightarrow> bool" where
  "truthy_id u = (case u of None \<Rightarrow> False | Some i \<Rightarrow> i \<noteq> 0)"

text \<open>The body of \<open>processFeedItem\<close> for an item that is not \<open>null\<close>.\<close>

definition hydrate :: "db \<Rightarrow> Feed \<Rightarrow> nat option \<Rightarrow> FeedFindOneVo" where
  "hydrate s item u =
     \<lparr>vo_feed = item,
      vo_feedImages = get_feed_images s (feed_id item),
      vo_tags = get_feed_tags s (feed_id item),
      likedYn = (if truthy_id u then Some (get_feed_like_by_user s (the u) (feed_id item))
                 else None),
      bookmarkedYn = (if truthy_id u
                      then Some (get_feed_bookmark_by_user s (the u) (feed_id item))
                      else None)\<rparr>"

text \<open>\<open>processFeedItem\<close>: reading \<open>item.id\<close> of a \<open>null\<close> item throws.\<close>

definition processFeedItem :: "db \<Rightarrow> Feed option \<Rightarrow> nat option \<Rightarrow> error + FeedFindOneVo" where
  "processFeedItem s item u =
     (case item of None \<Rightarrow> Inl TypeError | Some f \<Rightarrow> Inr (hydrate s f u))"

subsection \<open>Read paths\<close>

definition findOneFeed :: "db \<Rightarrow> nat \<Rightarrow> error + FeedFindOneVo" where
  "findOneFeed s feedId = processFeedItem s (getOneFeed s feedId) None"

definition findOneByUser :: "db \<Rightarrow> User \<Rightarrow> nat \<Rightarrow> error + FeedFindOneVo" where
  "findOneByUser s user feedId = processFeedItem s (getOneFeed s feedId) (Some (user_id user))"

text \<open>
  Modelled from the spec: the relation \<open>feed.tags\<close> that \<open>findAll\<close> joins is not declared
  in \<open>feed.entity.ts\<close> as given; the spec resolves a feed's tags through the mapper table.
\<close>

definition joined_tags :: "db \<Rightarrow> Feed \<Rightarrow> Tag list" where
  "joined_tags s f =
     filter (\<lambda>t. list_ex (\<lambda>m. map_feedId m = feed_id f \<and> map_tagId m = tag_id t)
                   (mapperFeedTags s)) (tags s)"

text \<open>
  The query of \<open>findAll\<close>: visible, active feeds with an author row, without the excluded
  authors when the list is not empty, newest first.
\<close>

definition findAll_getMany :: "db \<Rightarrow> nat list \<Rightarrow> Feed list" where
  "findAll_getMany s excludeUserIds =
     sort_key (\<lambda>f. - createdAt f)
       (filter (\<lambda>f. findUser s (userId f) \<noteq> None \<and> displayYn f = Y \<and> status f = ACTIVE \<and>
                     (if length excludeUserIds > 0 then userId f \<notin> set excludeUserIds
                      else True))
          (feeds s))"

text \<open>
  \<open>Array.prototype.slice (start, end)\<close>: a negative index counts from the end, and both
  indices are clamped to the array.
\<close>

definition js_slice :: "'a list \<Rightarrow> int \<Rightarrow> int \<Rightarrow> 'a list" where
  "js_slice xs start fin =
     (let len = int (length xs);
          k = (if start < 0 then max (len + start) 0 else min start len);
          final = (if fin < 0 then max (len + fin) 0 else min fin len)
      in take (nat (final - k)) (drop (nat k) xs))"

text \<open>The in-memory tag filter of \<open>findAll\<close>.\<close>

definition tag_filter :: "db \<Rightarrow> FeedListDto \<Rightarrow> Feed list \<Rightarrow> Feed list" where
  "tag_filter s dto fs =
     (case list_tagName dto of
        None \<Rightarrow> fs
      | Some tn \<Rightarrow>
          if length tn > 0
          then filter (\<lambda>feed. list_ex (\<lambda>tag. tagName tag = tn) (joined_tags s feed)) fs
          else fs)"

text \<open>
  \<open>findAll\<close>: both optional arguments are dereferenced without a check, \<open>excludeUserIds\<close>
  before the query runs and \<open>feedListDto\<close> after it. Every filtered feed is hydrated in
  place, and the page is a slice of the same objects.
\<close>

definition findAll ::
  "db \<Rightarrow> User \<Rightarrow> FeedListDto option \<Rightarrow> nat list option \<Rightarrow>
     error + FeedFindOneVo PaginateResponseVo" where
  "findAll s user feedListDto excludeUserIds =
     (case excludeUserIds of
        None \<Rightarrow> Inl TypeError
      | Some ex \<Rightarrow>
          (case feedListDto of
             None \<Rightarrow> Inl TypeError
           | Some dto \<Rightarrow>
               let filteredFeeds = tag_filter s dto (findAll_getMany s ex);
                   offset = (page dto - 1) * limit dto;
                   hydrated = map (\<lambda>item. hydrate s item (Some (user_id user))) filteredFeeds;
                   paginatedFeeds = js_slice hydrated offset (offset + limit dto)
               in Inr (generatePaginatedResponse paginatedFeeds (length filteredFeeds)
                         (page dto) (limit dto))))"

subsection \<open>Likes\<close>

text \<open>
  \<open>likeFeed\<close>: insert the like row, read the feed through \<open>findOneFeed\<close> (which throws when
  the query finds none), save it with \<open>likeCount\<close> incremented.
\<close>

definition likeFeed :: "nat \<Rightarrow> nat \<Rightarrow> db \<Rightarrow> error + db" where
  "likeFeed uid feedId s =
     (let newLike = \<lparr>like_feedId = feedId, like_userId = uid\<rparr>;
          s1 = s\<lparr>feedLikes := feedLikes s @ [newLike]\<rparr>
      in case findOneFeed s1 feedId of
           Inl e \<Rightarrow> Inl e
         | Inr vo \<Rightarrow>
             Inr (saveFeed ((vo_feed vo)\<lparr>likeCount := likeCount (vo_feed vo) + 1\<rparr>) s1))"

text \<open>
  \<open>deleteLikeFeed\<close>: delete every like row of the pair, then decrement \<open>likeCount\<close> of the
  feed, whatever the delete removed.
\<close>

definition deleteLikeFeed :: "nat \<Rightarrow> nat \<Rightarrow> db \<Rightarrow> error + db" where
  "deleteLikeFeed uid feedId s =
     (let s1 = s\<lparr>feedLikes :=
                  filter (\<lambda>l. \<not> (like_feedId l = feedId \<and> like_userId l = uid)) (feedLikes s)\<rparr>
      in case findOneFeed s1 feedId of
           Inl e \<Rightarrow> Inl e
         | Inr vo \<Rightarrow>
             Inr (saveFeed ((vo_feed vo)\<lparr>likeCount := likeCount (vo_feed vo) - 1\<rparr>) s1))"

text \<open>The number of like rows of a feed, and the invariant of the denormalised counter.\<close>

definition like_rows :: "db \<Rightarrow> nat \<Rightarrow> nat" where
  "like_rows s feedId = length (filter (\<lambda>l. like_feedId l = feedId) (feedLikes s))"

definition likeCount_consistent :: "db \<Rightarrow> bool" where
  "likeCount_consistent s =
     list_all (\<lambda>f. likeCount f = int (like_rows s (feed_id f))) (feeds s)"

subsection \<open>Status\<close>

definition updateFeedStatus :: "nat \<Rightarrow> FeedUpdateStatusDto \<Rightarrow> db \<Rightarrow> error + (Feed \<times> db)" where
  "updateFeedStatus feedId feedUpdateStatusDto s =
     (case findOneFeed s feedId of
        Inl e \<Rightarrow> Inl e
      | Inr vo \<Rightarrow>
          let feed = (vo_feed vo)\<lparr>status := update_status feedUpdateStatusDto\<rparr>;
              s1 = saveFeed feed s
          in (case findUser s1 (userId feed) of
                None \<Rightarrow> Inl TypeError
              | Some user \<Rightarrow>
                  let user' = (if status feed = ACTIVE
                               then user\<lparr>feedCount := feedCount user + 1\<rparr>
                               else user\<lparr>feedCount := feedCount user - 1\<rparr>)
                  in Inr (feed, saveUser user' s1)))"

subsection \<open>Hard delete\<close>

text \<open>The four \<open>DELETE\<close> statements of \<open>hardDeleteFeed\<close>.\<close>

definition deleteFeedImages :: "nat \<Rightarrow> db \<Rightarrow> db" where
  "deleteFeedImages feedId s =
     s\<lparr>feedImages := filter (\<lambda>i. img_feedId i \<noteq> feedId) (feedImages s)\<rparr>"

definition deleteFeedLikes :: "nat \<Rightarrow> db \<Rightarrow> db" where
  "deleteFeedLikes feedId s =
     s\<lparr>feedLikes := filter (\<lambda>l. like_feedId l \<noteq> feedId) (feedLikes s)\<rparr>"

definition deleteFeedBookmarks :: "nat \<Rightarrow> db \<Rightarrow> db" where
  "deleteFeedBookmarks feedId s =
     s\<lparr>feedBookmarks := filter (\<lambda>b. bm_feedId b \<noteq> feedId) (feedBookmarks s)\<rparr>"

definition deleteFeedRow :: "nat \<Rightarrow> db \<Rightarrow> db" where
  "deleteFeedRow feedId s = s\<lparr>feeds := filter (\<lambda>f. feed_id f \<noteq> feedId) (feeds s)\<rparr>"

text \<open>The statements in the order the transaction issues them, and their execution.\<close>

definition hardDeleteFeed_statements :: "nat \<Rightarrow> (db \<Rightarrow> db) list" where
  "hardDeleteFeed_statements feedId =
     [deleteFeedImages feedId, deleteFeedLikes feedId, deleteFeedBookmarks feedId,
      deleteFeedRow feedId]"

definition execute :: "(db \<Rightarrow> db) list \<Rightarrow> db \<Rightarrow> db" where
  "execute stmts s = fold (\<lambda>stmt t. stmt t) stmts s"

text \<open>
  \<open>hardDeleteFeed\<close>: after the deletes, the user given by \<open>userId\<close> is read and saved with
  \<open>feedCount\<close> decremented; a missing user throws.
\<close>

definition hardDeleteFeed :: "nat \<Rightarrow> nat \<Rightarrow> db \<Rightarrow> error + db" where
  "hardDeleteFeed uid feedId s =
     (let s4 = execute (hardDeleteFeed_statements feedId) s
      in case findUser s4 uid of
           None \<Rightarrow> Inl TypeError
         | Some user \<Rightarrow> Inr (saveUser (user\<lparr>feedCount := feedCount user - 1\<rparr>) s4))"

definition dependent_rows :: "db \<Rightarrow> nat \<Rightarrow> nat" where
  "dependent_rows s feedId =
     length (filter (\<lambda>i. img_feedId i = feedId) (feedImages s)) +
     length (filter (\<lambda>l. like_feedId l = feedId) (feedLikes s)) +
     length (filter (\<lambda>b. bm_feedId b = feedId) (feedBookmarks s))"

subsection \<open>Asynchronous callbacks\<close>

text \<open>
  The rest of a running \<open>async\<close> function: it has returned (\<open>Done\<close>), it has thrown
  (\<open>Throw\<close>), it is suspended at an \<open>await\<close> of one store operation (\<open>Await\<close>: when the
  operation completes it changes the store and the function runs on to its next
  \<open>await\<close>, which gives the new rest), or it is suspended at \<open>await Promise.all (...)\<close>
  (\<open>AwaitAll\<close>: the callbacks, and the rest of the function after them).
\<close>

datatype task = Done | Throw error | Await "db \<Rightarrow> db \<times> task" | AwaitAll "task list" task

fun is_Done :: "task \<Rightarrow> bool" where
  "is_Done Done = True"
| "is_Done t = False"

text \<open>The first callback, in array order, that has thrown.\<close>

fun rejected :: "task list \<Rightarrow> error option" where
  "rejected [] = None"
| "rejected (Throw e # ts) = Some e"
| "rejected (t # ts) = rejected ts"

text \<open>
  \<open>await Promise.all (ts)\<close> followed by \<open>k\<close>: it throws when a callback has thrown, goes
  on with \<open>k\<close> at once when every callback has returned (also for the empty array), and
  is suspended otherwise.
\<close>

definition promise_all :: "task list \<Rightarrow> task \<Rightarrow> task" where
  "promise_all ts k =
     (case rejected ts of
        Some e \<Rightarrow> Throw e
      | None \<Rightarrow> if list_all is_Done ts then k else AwaitAll ts k)"

text \<open>
  One round: every pending operation completes, in the order in which the operations
  were issued, which is the array order of the callbacks; each callback then runs on to
  its next \<open>await\<close>.
\<close>

fun complete :: "task \<Rightarrow> db \<Rightarrow> db \<times> task"
  and complete_all :: "task list \<Rightarrow> db \<Rightarrow> db \<times> task list" where
  "complete Done s = (s, Done)"
| "complete (Throw e) s = (s, Throw e)"
| "complete (Await operation) s = operation s"
| "complete (AwaitAll ts k) s =
     (case complete_all ts s of (s', ts') \<Rightarrow> (s', promise_all ts' k))"
| "complete_all [] s = (s, [])"
| "complete_all (t # ts) s =
     (case complete t s of (s1, t') \<Rightarrow>
        (case complete_all ts s1 of (s2, ts') \<Rightarrow> (s2, t' # ts')))"

fun outcome :: "task \<Rightarrow> db \<Rightarrow> (error + db) option" where
  "outcome Done s = Some (Inr s)"
| "outcome (Throw e) s = Some (Inl e)"
| "outcome t s = None"

text \<open>
  Running a task to its end, round by round. The result is \<open>None\<close> when the task never
  ends, \<open>Some (Inl e)\<close> when it throws (the transaction is rolled back) and
  \<open>Some (Inr s)\<close> with the store it leaves otherwise.
\<close>

partial_function (option) run :: "task \<Rightarrow> db \<Rightarrow> (error + db) option" where
  "run t s =
     (if outcome t s \<noteq> None then outcome t s
      else case complete t s of (s', t') \<Rightarrow> run t' s')"

declare run.simps [code]

subsection \<open>Tags of a feed\<close>

text \<open>Inserting a new tag (the key comes from the table's sequence) and a mapper row.\<close>

definition insertTag :: "string \<Rightarrow> db \<Rightarrow> Tag \<times> db" where
  "insertTag n s =
     (let tag = \<lparr>tag_id = nextTagId s, tagName = n\<rparr>
      in (tag, s\<lparr>tags := tags s @ [tag], nextTagId := Suc (nextTagId s)\<rparr>))"

definition insertMapper :: "MapperFeedTag \<Rightarrow> db \<Rightarrow> db" where
  "insertMapper m s = s\<lparr>mapperFeedTags := mapperFeedTags s @ [m]\<rparr>"

text \<open>The elements of \<open>new Set (xs)\<close> in insertion order.\<close>

definition js_Set :: "'a list \<Rightarrow> 'a list" where
  "js_Set xs = fold (\<lambda>x acc. if x \<in> set acc then acc else acc @ [x]) xs []"

text \<open>The tag keys the mapper rows of a feed hold, in storage order.\<close>

definition mapped_tag_ids :: "db \<Rightarrow> nat \<Rightarrow> nat list" where
  "mapped_tag_ids s feedId =
     map map_tagId (filter (\<lambda>m. map_feedId m = feedId) (mapperFeedTags s))"

text \<open>The tag names a feed is mapped to: the names of the tags its mapper rows resolve to.\<close>

definition mapped_tag_names :: "db \<Rightarrow> nat \<Rightarrow> string list" where
  "mapped_tag_names s feedId =
     concat (map (\<lambda>t. case t of None \<Rightarrow> [] | Some tag \<Rightarrow> [tagName tag]) (get_feed_tags s feedId))"

subsection \<open>Creation\<close>

text \<open>
  The callback of \<open>createFeed\<close> for one tag name has three awaits: the lookup of the tag,
  the insert of a new tag when the lookup found none, and the insert of the mapper row,
  which is not preceded by any lookup. \<open>createFeed_save\<close> is the callback after its
  lookup has returned \<open>found\<close>, \<open>createFeed_mapper\<close> the callback once it holds a tag.
\<close>

definition createFeed_mapper :: "nat \<Rightarrow> Tag \<Rightarrow> task" where
  "createFeed_mapper newFeedId tag =
     Await (\<lambda>s. (insertMapper \<lparr>map_feedId = newFeedId, map_tagId = tag_id tag\<rparr> s, Done))"




subsection \<open>Update\<close>

text \<open>
  \<open>findOneFeed\<close> as it runs inside a callback, with one await for each of its queries:
  the feed (\<open>item.id\<close> throws when there is none), the images, the mapper rows, and the
  tags of the mapper rows, which \<open>__get_feed_tags\<close> looks up together through a
  \<open>Promise.all\<close> of reads (none is issued for a feed without mapper rows). No user id is
  passed, so the two flags stay unset. \<open>k\<close> is the rest of the caller.
\<close>

definition findOneFeed_task :: "nat \<Rightarrow> (FeedFindOneVo \<Rightarrow> task) \<Rightarrow> task" where
  "findOneFeed_task feedId k =
     Await (\<lambda>s. (s,
       case getOneFeed s feedId of
         None \<Rightarrow> Throw TypeError
       | Some item \<Rightarrow>
           Await (\<lambda>s1. (s1,
             let images = get_feed_images s1 (feed_id item)
             in Await (\<lambda>s2. (s2,
                  let tagIds = mapped_tag_ids s2 (feed_id item)
                  in if tagIds = []
                     then k \<lparr>vo_feed = item, vo_feedImages = images, vo_tags = [],
                              likedYn = None, bookmarkedYn = None\<rparr>
                     else Await (\<lambda>s3. (s3,
                            k \<lparr>vo_feed = item, vo_feedImages = images,
                               vo_tags = map (findTagById s3) tagIds,
                               likedYn = None, bookmarkedYn = None\<rparr>))))))))"

text \<open>
  The inner callback of \<open>updateFeed\<close> for one removed tag name: look the tag up by name,
  then delete the mapper row of the feed that holds its key.
\<close>

definition updateFeed_delete :: "nat \<Rightarrow> string \<Rightarrow> task" where
  "updateFeed_delete feedId n =
     Await (\<lambda>s. (s,
       case findTagByName s n of
         None \<Rightarrow> Done
       | Some deleteTag \<Rightarrow>
           if tag_id deleteTag \<noteq> 0
           then Await (\<lambda>s1.
                  (s1\<lparr>mapperFeedTags :=
                        filter (\<lambda>m. \<not> (map_feedId m = feedId \<and> map_tagId m = tag_id deleteTag))
                          (mapperFeedTags s1)\<rparr>,
                   Done))
           else Done))"

text \<open>
  The last part of the outer callback: read the feed's tags again (\<open>tag.tagName\<close> throws
  for a mapper row whose tag does not exist) and delete the mapper rows of the names
  that are not supplied.
\<close>

definition updateFeed_prune :: "nat \<Rightarrow> string list \<Rightarrow> task" where
  "updateFeed_prune feedId tagNames =
     findOneFeed_task feedId (\<lambda>vo.
       case those (vo_tags vo) of
         None \<Rightarrow> Throw TypeError
       | Some feedTags \<Rightarrow>
           let prevTags = js_Set (map tagName feedTags);
               deletedTags = filter (\<lambda>t. t \<notin> set tagNames) prevTags
           in if length deletedTags > 0
              then promise_all (map (updateFeed_delete feedId) deletedTags) Done
              else Done)"

text \<open>
  The middle part: look the mapper row of the tag up and insert it when there is none
  (\<open>feed.id\<close> throws when the feed was not found).
\<close>

definition updateFeed_mapper :: "Feed option \<Rightarrow> nat \<Rightarrow> string list \<Rightarrow> Tag \<Rightarrow> task" where
  "updateFeed_mapper feed feedId tagNames tag =
     Await (\<lambda>s. (s,
       case find (\<lambda>m. map_tagId m = tag_id tag \<and> map_feedId m = feedId) (mapperFeedTags s) of
         None \<Rightarrow>
           (case feed of
              None \<Rightarrow> Throw TypeError
            | Some f \<Rightarrow>
                Await (\<lambda>s1.
                  (insertMapper \<lparr>map_feedId = feed_id f, map_tagId = tag_id tag\<rparr> s1,
                   updateFeed_prune feedId tagNames)))
       | Some mapper \<Rightarrow> updateFeed_prune feedId tagNames))"

text \<open>
  The outer callback of \<open>updateFeed\<close> for one tag name starts with the lookup of the tag
  and the insert of a new tag when the lookup found none.
\<close>

definition updateFeed_tag :: "Feed option \<Rightarrow> nat \<Rightarrow> string list \<Rightarrow> string \<Rightarrow> task" where
  "updateFeed_tag feed feedId tagNames n =
     Await (\<lambda>s. (s,
       case findTagByName s n of
         None \<Rightarrow>
           Await (\<lambda>s1. case insertTag n s1 of
                          (tag, s2) \<Rightarrow> (s2, updateFeed_mapper feed feedId tagNames tag))
       | Some tag \<Rightarrow> updateFeed_mapper feed feedId tagNames tag))"

text \<open>
  \<open>updateFeed\<close>; \<open>now\<close> is the value of \<open>new Date ()\<close>. \<open>tagNames.length\<close> throws when the
  request has no tag list, \<open>feed.description = ...\<close> when the feed was not found.
\<close>

definition updateFeed ::
  "nat \<Rightarrow> FeedUpdateDto \<Rightarrow> int \<Rightarrow> db \<Rightarrow> (error + (Feed \<times> db)) option" where
  "updateFeed feedId feedUpdateDto now s =
     (let feed = findFeed s feedId
      in case update_tagNames feedUpdateDto of
           None \<Rightarrow> Some (Inl TypeError)
         | Some names \<Rightarrow>
             let s1 = (if length names = 0
                       then s\<lparr>mapperFeedTags :=
                                filter (\<lambda>m. map_feedId m \<noteq> feedId) (mapperFeedTags s)\<rparr>
                       else s);
                 tagged = (if length names > 0
                           then run (promise_all
                                       (map (updateFeed_tag feed feedId names) names) Done) s1
                           else Some (Inr s1))
             in (case tagged of
                   None \<Rightarrow> None
                 | Some (Inl e) \<Rightarrow> Some (Inl e)
                 | Some (Inr s2) \<Rightarrow>
                     (case feed of
                        None \<Rightarrow> Some (Inl TypeError)
                      | Some f \<Rightarrow>
                          let f' = f\<lparr>description := update_description feedUpdateDto,
                                     updatedAt := now\<rparr>
                          in Some (Inr (f', saveFeed f' s2)))))"

subsection \<open>Listing and pagination as the specification words them\<close>

text \<open>
  The page of a list: skip \<open>(page - 1) * limit\<close> elements, keep at most \<open>limit\<close>.
\<close>

definition spec_page :: "'a list \<Rightarrow> int \<Rightarrow> int \<Rightarrow> 'a list" where
  "spec_page xs p l = take (nat l) (drop (nat ((p - 1) * l)) xs)"

text \<open>A feed carries a tag name when one of its mapper rows holds the key of a tag of that name.\<close>

definition spec_has_tag :: "db \<Rightarrow> string \<Rightarrow> Feed \<Rightarrow> bool" where
  "spec_has_tag s tn f =
     list_ex (\<lambda>m. map_feedId m = feed_id f \<and>
                   list_ex (\<lambda>t. tag_id t = map_tagId m \<and> tagName t = tn) (tags s))
       (mapperFeedTags s)"

text \<open>
  The feeds the listing of all feeds is about: visible, active, with an author row (the
  query joins it), not of an excluded user, and, when the request names a tag, carrying
  that tag.
\<close>

definition spec_listed :: "db \<Rightarrow> FeedListDto \<Rightarrow> nat list \<Rightarrow> Feed \<Rightarrow> bool" where
  "spec_listed s dto ex f =
     (displayYn f = Y \<and> status f = ACTIVE \<and> findUser s (userId f) \<noteq> None \<and>
      userId f \<notin> set ex \<and>
      (case list_tagName dto of
         None \<Rightarrow> True
       | Some tn \<Rightarrow> tn = [] \<or> spec_has_tag s tn f))"

subsection \<open>Example stores\<close>

definition ex_user :: User where
  "ex_user = \<lparr>user_id = 7, feedCount = 1\<rparr>"

text \<open>
  A store for the listing. Feeds \<open>1\<close> to \<open>25\<close> are visible, active and carry the tag
  \<open>T\<close>; feed \<open>26\<close> carries it but is deleted, feed \<open>27\<close> carries it but is hidden; the two
  newest feeds, \<open>28\<close> and \<open>29\<close>, are visible and active and carry the tag \<open>U\<close> only. A
  feed is the newer the larger its key is.
\<close>

definition page_feed :: "nat \<Rightarrow> Feed" where
  "page_feed i = \<lparr>feed_id = i, userId = 7, description = [], likeCount = 0,
     showLikeCountYn = Y, commentCount = 0, displayYn = Y, status = ACTIVE,
     createdAt = int i, updatedAt = int i\<rparr>"

definition page_feeds :: "Feed list" where
  "page_feeds = map page_feed (rev [1..<26])"

definition page_db :: db where
  "page_db = \<lparr>users = [ex_user],
     feeds = map page_feed [1..<26] @
       [(page_feed 26)\<lparr>status := DELETED\<rparr>, (page_feed 27)\<lparr>displayYn := N\<rparr>,
        page_feed 28, page_feed 29],
     feedImages = [], feedLikes = [], feedBookmarks = [],
     tags = [\<lparr>tag_id = 1, tagName = ''T''\<rparr>, \<lparr>tag_id = 2, tagName = ''U''\<rparr>],
     mapperFeedTags = map (\<lambda>i. \<lparr>map_feedId = i, map_tagId = 1\<rparr>) [1..<28] @
       [\<lparr>map_feedId = 28, map_tagId = 2\<rparr>, \<lparr>map_feedId = 29, map_tagId = 2\<rparr>],
     nextFeedId = 30, nextTagId = 3\<rparr>"

definition page_dto :: "int \<Rightarrow> FeedListDto" where
  "page_dto p = \<lparr>list_tagName = Some ''T'', page = p, limit = 10\<rparr>"

text \<open>
  A store with one visible, active feed and one feed that is deleted and hidden, both of
  user \<open>7\<close>. Feed \<open>1\<close> carries the tags \<open>A\<close>, \<open>B\<close>, \<open>C\<close>; its image rows are
  stored with the larger \<open>sortOrder\<close> first, those of feed \<open>2\<close> in ascending order.
\<close>

definition ex_feed :: Feed where
  "ex_feed = \<lparr>feed_id = 1, userId = 7, description = ''first'', likeCount = 0,
     showLikeCountYn = Y, commentCount = 0, displayYn = Y, status = ACTIVE,
     createdAt = 5, updatedAt = 5\<rparr>"

definition hidden_feed :: Feed where
  "hidden_feed = \<lparr>feed_id = 2, userId = 7, description = ''gone'', likeCount = 0,
     showLikeCountYn = Y, commentCount = 0, displayYn = N, status = DELETED,
     createdAt = 6, updatedAt = 6\<rparr>"

definition ex_db :: db where
  "ex_db = \<lparr>users = [ex_user], feeds = [ex_feed, hidden_feed],
     feedImages = [\<lparr>img_feedId = 1, img_image = ''b'', sortOrder = 2\<rparr>,
                   \<lparr>img_feedId = 1, img_image = ''a'', sortOrder = 1\<rparr>,
                   \<lparr>img_feedId = 2, img_image = ''c'', sortOrder = 1\<rparr>,
                   \<lparr>img_feedId = 2, img_image = ''d'', sortOrder = 2\<rparr>],
     feedLikes = [], feedBookmarks = [],
     tags = [\<lparr>tag_id = 1, tagName = ''A''\<rparr>, \<lparr>tag_id = 2, tagName = ''B''\<rparr>,
             \<lparr>tag_id = 3, tagName = ''C''\<rparr>],
     mapperFeedTags = [\<lparr>map_feedId = 1, map_tagId = 1\<rparr>, \<lparr>map_feedId = 1, map_tagId = 2\<rparr>,
                       \<lparr>map_feedId = 1, map_tagId = 3\<rparr>],
     nextFeedId = 3, nextTagId = 4\<rparr>"

definition ex_list_dto :: FeedListDto where
  "ex_list_dto = \<lparr>list_tagName = None, page = 1, limit = 10\<rparr>"

text \<open>The number of like rows of one user for one feed.\<close>

definition user_like_rows :: "db \<Rightarrow> nat \<Rightarrow> nat \<Rightarrow> nat" where
  "user_like_rows s uid feedId =
     length (filter (\<lambda>l. like_feedId l = feedId \<and> like_userId l = uid) (feedLikes s))"

text \<open>The example store after user \<open>7\<close> has liked feed \<open>1\<close>.\<close>

definition liked_db :: db where
  "liked_db = ex_db\<lparr>feeds := [ex_feed\<lparr>likeCount := 1\<rparr>, hidden_feed],
                   feedLikes := [\<lparr>like_feedId = 1, like_userId = 7\<rparr>]\<rparr>"

text \<open>The example store after an unlike that found no row to delete.\<close>

definition unliked_db :: db where
  "unliked_db = ex_db\<lparr>feeds := [ex_feed\<lparr>likeCount := - 1\<rparr>, hidden_feed]\<rparr>"

text \<open>
  The example store after feed \<open>1\<close>, already active, was set to \<open>ACTIVE\<close> once more.
\<close>

definition recounted_db :: db where
  "recounted_db = ex_db\<lparr>users := [\<lparr>user_id = 7, feedCount = 2\<rparr>]\<rparr>"

text \<open>The example store with a like and a bookmark of user \<open>7\<close> on feed \<open>1\<close>.\<close>

definition marked_db :: db where
  "marked_db = liked_db\<lparr>feedBookmarks := [\<lparr>bm_feedId = 1, bm_userId = 7\<rparr>]\<rparr>"

text \<open>The store of the last example with a second user, who is not the author of feed \<open>1\<close>.\<close>

definition two_user_db :: db where
  "two_user_db = marked_db\<lparr>users := [\<lparr>user_id = 7, feedCount = 1\<rparr>, \<lparr>user_id = 8, feedCount = 5\<rparr>]\<rparr>"

text \<open>That store after user \<open>8\<close> has hard-deleted feed \<open>1\<close>, and after its author has.\<close>

definition deleted_by_other_db :: db where
  "deleted_by_other_db = \<lparr>users = [\<lparr>user_id = 7, feedCount = 1\<rparr>, \<lparr>user_id = 8, feedCount = 4\<rparr>],
     feeds = [hidden_feed],
     feedImages = [\<lparr>img_feedId = 2, img_image = ''c'', sortOrder = 1\<rparr>,
                   \<lparr>img_feedId = 2, img_image = ''d'', sortOrder = 2\<rparr>],
     feedLikes = [], feedBookmarks = [], tags = tags ex_db,
     mapperFeedTags = mapperFeedTags ex_db, nextFeedId = 3, nextTagId = 4\<rparr>"

definition deleted_by_author_db :: db where
  "deleted_by_author_db =
     deleted_by_other_db\<lparr>users := [\<lparr>user_id = 7, feedCount = 0\<rparr>, \<lparr>user_id = 8, feedCount = 5\<rparr>]\<rparr>"

subsection \<open>Well-formed tag table; the lists a request supplies\<close>









text \<open>
  Four update requests for feed \<open>1\<close>: the tags \<open>B\<close>, \<open>C\<close>, \<open>D\<close>; no tag; the new tag \<open>D\<close>
  given twice; the tag \<open>B\<close> alone. The stores are the ones they lead to: the first three
  from the example store, the fourth from the store the third has left.
\<close>

definition update_dto :: "string list \<Rightarrow> FeedUpdateDto" where
  "update_dto names = \<lparr>update_description = ''edited'', update_tagNames = Some names\<rparr>"

definition updated_feed :: "int \<Rightarrow> Feed" where
  "updated_feed now = ex_feed\<lparr>description := ''edited'', updatedAt := now\<rparr>"

definition updated_db :: db where
  "updated_db = ex_db\<lparr>feeds := [updated_feed 9, hidden_feed],
     tags := tags ex_db @ [\<lparr>tag_id = 4, tagName = ''D''\<rparr>],
     mapperFeedTags := [\<lparr>map_feedId = 1, map_tagId = 2\<rparr>, \<lparr>map_feedId = 1, map_tagId = 3\<rparr>,
                        \<lparr>map_feedId = 1, map_tagId = 4\<rparr>],
     nextTagId := 5\<rparr>"

definition untagged_db :: db where
  "untagged_db = ex_db\<lparr>feeds := [updated_feed 9, hidden_feed], mapperFeedTags := []\<rparr>"

definition twice_db :: db where
  "twice_db = ex_db\<lparr>feeds := [updated_feed 9, hidden_feed],
     tags := tags ex_db @ [\<lparr>tag_id = 4, tagName = ''D''\<rparr>, \<lparr>tag_id = 5, tagName = ''D''\<rparr>],
     mapperFeedTags := [\<lparr>map_feedId = 1, map_tagId = 4\<rparr>, \<lparr>map_feedId = 1, map_tagId = 5\<rparr>],
     nextTagId := 6\<rparr>"

definition stale_db :: db where
  "stale_db = twice_db\<lparr>feeds := [updated_feed 10, hidden_feed],
     mapperFeedTags := [\<lparr>map_feedId = 1, map_tagId = 5\<rparr>, \<lparr>map_feedId = 1, map_tagId = 2\<rparr>]\<rparr>"

section \<open>Verified properties\<close>

subsection \<open>Listing: filter, then paginate\<close>

lemma js_slice_map: "js_slice (map f xs) a b = map f (js_slice xs a b)"
  by (simp add: js_slice_def Let_def take_map drop_map)

lemma take_min_length: "length ys = m \<Longrightarrow> take (min n m) ys = take n ys"
  by (cases "n \<le> m") (simp_all add: min_def)

lemma js_slice_in_range:
  assumes "0 \<le> a" "0 \<le> l"
  shows "js_slice xs a (a + l) = take (nat l) (drop (nat a) xs)"
proof (cases "a \<le> int (length xs)")
  case True
  have fin: "\<not> a + l < 0" using assms by simp
  have "nat (min (a + l) (int (length xs)) - a) = min (nat l) (length xs - nat a)"
    using assms True unfolding min_def by (auto simp: nat_diff_distrib nat_le_iff le_diff_conv)
  then have "js_slice xs a (a + l) = take (min (nat l) (length xs - nat a)) (drop (nat a) xs)"
    using assms True by (simp add: js_slice_def Let_def min_absorb1)
  also have "\<dots> = take (nat l) (drop (nat a) xs)"
    by (rule take_min_length) simp
  finally show ?thesis .
next
  case False
  then have "length xs \<le> nat a" by simp
  then have "drop (nat a) xs = []" by simp
  moreover have "js_slice xs a (a + l) = []"
    using assms False by (simp add: js_slice_def Let_def min_def)
  ultimately show ?thesis by simp
qed

lemma set_js_slice: "set (js_slice xs a b) \<subseteq> set xs"
  unfolding js_slice_def Let_def
  by (meson set_take_subset set_drop_subset subset_trans)

lemma vo_feed_hydrate: "vo_feed (hydrate s f u) = f"
  by (simp add: hydrate_def)

lemma findAll_Inr:
  "findAll s user (Some dto) (Some ex) =
     Inr (generatePaginatedResponse
            (js_slice (map (\<lambda>item. hydrate s item (Some (user_id user)))
                         (tag_filter s dto (findAll_getMany s ex)))
               ((page dto - 1) * limit dto) ((page dto - 1) * limit dto + limit dto))
            (length (tag_filter s dto (findAll_getMany s ex))) (page dto) (limit dto))"
  by (simp add: findAll_def Let_def)

lemma has_tag_joined:
  "list_ex (\<lambda>tag. tagName tag = tn) (joined_tags s f) = spec_has_tag s tn f"
proof
  assume "list_ex (\<lambda>tag. tagName tag = tn) (joined_tags s f)"
  then obtain t m where "t \<in> set (tags s)" "tagName t = tn" "m \<in> set (mapperFeedTags s)"
      "map_feedId m = feed_id f" "map_tagId m = tag_id t"
    unfolding joined_tags_def list_ex_iff by auto
  then have "\<exists>m \<in> set (mapperFeedTags s). map_feedId m = feed_id f \<and>
      (\<exists>t \<in> set (tags s). tag_id t = map_tagId m \<and> tagName t = tn)"
    by (intro bexI [of _ m] conjI bexI [of _ t]) simp_all
  then show "spec_has_tag s tn f" unfolding spec_has_tag_def list_ex_iff .
next
  assume "spec_has_tag s tn f"
  then obtain t m where "t \<in> set (tags s)" "tagName t = tn" "m \<in> set (mapperFeedTags s)"
      "map_feedId m = feed_id f" "tag_id t = map_tagId m"
    unfolding spec_has_tag_def list_ex_iff by auto
  then have "\<exists>t \<in> set (tags s). (\<exists>m \<in> set (mapperFeedTags s).
      map_feedId m = feed_id f \<and> map_tagId m = tag_id t) \<and> tagName t = tn"
    by (intro bexI [of _ t] conjI bexI [of _ m]) simp_all
  then show "list_ex (\<lambda>tag. tagName tag = tn) (joined_tags s f)"
    unfolding joined_tags_def list_ex_iff by auto
qed

lemma getMany_listed:
  "findAll_getMany s ex =
     filter (\<lambda>f. displayYn f = Y \<and> status f = ACTIVE \<and> findUser s (userId f) \<noteq> None \<and>
                   userId f \<notin> set ex)
       (sort_key (\<lambda>f. - createdAt f) (feeds s))"
proof -
  have "filter (\<lambda>f. findUser s (userId f) \<noteq> None \<and> displayYn f = Y \<and> status f = ACTIVE \<and>
             (if length ex > 0 then userId f \<notin> set ex else True)) (feeds s) =
        filter (\<lambda>f. displayYn f = Y \<and> status f = ACTIVE \<and> findUser s (userId f) \<noteq> None \<and>
              userId f \<notin> set ex) (feeds s)"
    by (rule filter_cong [OF refl]) (cases ex, auto)
  then show ?thesis
    unfolding findAll_getMany_def by (simp only: filter_sort [symmetric])
qed

lemma tag_filter_listed:
  "tag_filter s dto (findAll_getMany s ex) =
     filter (spec_listed s dto ex) (sort_key (\<lambda>f. - createdAt f) (feeds s))"
proof (cases "list_tagName dto")
  case None
  have "tag_filter s dto (findAll_getMany s ex) = findAll_getMany s ex"
    using None by (simp add: tag_filter_def)
  also have "\<dots> = filter (spec_listed s dto ex) (sort_key (\<lambda>f. - createdAt f) (feeds s))"
    unfolding getMany_listed
    by (rule filter_cong [OF refl]) (simp add: spec_listed_def None)
  finally show ?thesis .
next
  case (Some tn)
  show ?thesis
  proof (cases "tn = []")
    case True
    have "tag_filter s dto (findAll_getMany s ex) = findAll_getMany s ex"
      using Some True by (simp add: tag_filter_def)
    also have "\<dots> = filter (spec_listed s dto ex) (sort_key (\<lambda>f. - createdAt f) (feeds s))"
      unfolding getMany_listed
      by (rule filter_cong [OF refl]) (simp add: spec_listed_def Some True)
    finally show ?thesis .
  next
    case False
    have "tag_filter s dto (findAll_getMany s ex) =
        filter (\<lambda>feed. spec_has_tag s tn feed) (findAll_getMany s ex)"
      using Some False by (simp add: tag_filter_def has_tag_joined)
    also have "\<dots> = filter (spec_listed s dto ex) (sort_key (\<lambda>f. - createdAt f) (feeds s))"
      unfolding getMany_listed filter_filter
      by (rule filter_cong [OF refl]) (simp add: spec_listed_def Some False)
    finally show ?thesis .
  qed
qed

text \<open>
  C4. \<open>findAll\<close> returns when both arguments are given. Let the filtered list be all
  stored feeds, newest first, that are visible, active, joined to an author row, not of an
  excluded user and, when the request names a tag, mapped to a tag of that name. The
  total count is the length of the whole filtered list, and the items are its slice
  \<open>[offset, offset + limit)\<close> with \<open>offset = (page - 1) * limit\<close> (JavaScript's \<open>slice\<close>);
  for a page from \<open>1\<close> on and a limit that is not negative this is the page of the
  specification: skip \<open>offset\<close>, keep \<open>limit\<close>.
\<close>

theorem findAll_filters_then_paginates:
  "\<exists>r. findAll s user (Some dto) (Some ex) = Inr r \<and>
       totalCount r =
         length (filter (spec_listed s dto ex) (sort_key (\<lambda>f. - createdAt f) (feeds s))) \<and>
       map vo_feed (items r) =
         js_slice (filter (spec_listed s dto ex) (sort_key (\<lambda>f. - createdAt f) (feeds s)))
           ((page dto - 1) * limit dto) ((page dto - 1) * limit dto + limit dto) \<and>
       (1 \<le> page dto \<and> 0 \<le> limit dto \<longrightarrow>
          map vo_feed (items r) =
            spec_page (filter (spec_listed s dto ex) (sort_key (\<lambda>f. - createdAt f) (feeds s)))
              (page dto) (limit dto))"
proof -
  let ?F = "filter (spec_listed s dto ex) (sort_key (\<lambda>f. - createdAt f) (feeds s))"
  let ?off = "(page dto - 1) * limit dto"
  let ?r = "generatePaginatedResponse
            (js_slice (map (\<lambda>item. hydrate s item (Some (user_id user))) ?F) ?off (?off + limit dto))
            (length ?F) (page dto) (limit dto)"
  have 1: "findAll s user (Some dto) (Some ex) = Inr ?r"
    unfolding findAll_Inr tag_filter_listed ..
  have 2: "totalCount ?r = length ?F" by (simp add: generatePaginatedResponse_def)
  have 3: "map vo_feed (items ?r) = js_slice ?F ?off (?off + limit dto)"
    by (simp add: generatePaginatedResponse_def js_slice_map vo_feed_hydrate o_def)
  have 4: "map vo_feed (items ?r) = spec_page ?F (page dto) (limit dto)"
    if "1 \<le> page dto \<and> 0 \<le> limit dto"
  proof -
    from that have "0 \<le> ?off" by simp
    with that show ?thesis
      unfolding 3 spec_page_def by (simp add: js_slice_in_range)
  qed
  from 1 2 3 4 show ?thesis by blast
qed

lemma page_db_listed:
  "filter (spec_listed page_db (page_dto p) []) (sort_key (\<lambda>f. - createdAt f) (feeds page_db)) =
     page_feeds"
  by code_simp

lemma page_feeds_facts:
  "length page_feeds = 25"
  "map feed_id (spec_page page_feeds 3 10) = [5, 4, 3, 2, 1]"
  "map feed_id (spec_page page_feeds 1 10) = [25, 24, 23, 22, 21, 20, 19, 18, 17, 16]"
  by code_simp+

lemma page_db_unfiltered:
  "length (findAll_getMany page_db []) = 27"
  "map feed_id (take 10 (findAll_getMany page_db [])) = [29, 28, 25, 24, 23, 22, 21, 20, 19, 18]"
  by code_simp+

text \<open>
  In the listing store twenty-five feeds are visible, active and tagged \<open>T\<close>, and two
  newer ones are visible and active without that tag. With the tag \<open>T\<close> and limit \<open>10\<close>,
  page \<open>1\<close> holds the ten newest tagged feeds, page \<open>3\<close> the five oldest, and the total
  count is \<open>25\<close> on both; the first ten fetched feeds include the two untagged ones.
\<close>

theorem findAll_filters_then_paginates_witness:
  "(1::int) \<le> 3 \<and> (0::int) \<le> 10 \<and>
   list_tagName (page_dto 3) = Some ''T'' \<and> length (findAll_getMany page_db []) = 27 \<and>
   map feed_id (take 10 (findAll_getMany page_db [])) = [29, 28, 25, 24, 23, 22, 21, 20, 19, 18] \<and>
   (\<exists>r. findAll page_db ex_user (Some (page_dto 3)) (Some []) = Inr r \<and>
        totalCount r = 25 \<and> map feed_id (map vo_feed (items r)) = [5, 4, 3, 2, 1]) \<and>
   (\<exists>r. findAll page_db ex_user (Some (page_dto 1)) (Some []) = Inr r \<and>
        totalCount r = 25 \<and>
        map feed_id (map vo_feed (items r)) = [25, 24, 23, 22, 21, 20, 19, 18, 17, 16])"
proof -
  have pg: "page (page_dto p) = p" "limit (page_dto p) = 10"
      "list_tagName (page_dto p) = Some ''T''" for p
    by (simp_all add: page_dto_def)
  from findAll_filters_then_paginates [of page_db ex_user "page_dto 3" "[]"]
  obtain r where r: "findAll page_db ex_user (Some (page_dto 3)) (Some []) = Inr r"
      "totalCount r = length page_feeds"
      "1 \<le> (3::int) \<and> 0 \<le> (10::int) \<longrightarrow> map vo_feed (items r) = spec_page page_feeds 3 10"
    unfolding page_db_listed pg by blast
  from r(3) have "map vo_feed (items r) = spec_page page_feeds 3 10" by simp
  then have r3: "map feed_id (map vo_feed (items r)) = [5, 4, 3, 2, 1]"
    by (simp only: page_feeds_facts)
  from findAll_filters_then_paginates [of page_db ex_user "page_dto 1" "[]"]
  obtain q where q: "findAll page_db ex_user (Some (page_dto 1)) (Some []) = Inr q"
      "totalCount q = length page_feeds"
      "1 \<le> (1::int) \<and> 0 \<le> (10::int) \<longrightarrow> map vo_feed (items q) = spec_page page_feeds 1 10"
    unfolding page_db_listed pg by blast
  from q(3) have "map vo_feed (items q) = spec_page page_feeds 1 10" by simp
  then have q3: "map feed_id (map vo_feed (items q)) = [25, 24, 23, 22, 21, 20, 19, 18, 17, 16]"
    by (simp only: page_feeds_facts)
  from r(1,2) r3 q(1,2) q3 pg(3) [of 3] page_db_unfiltered show ?thesis
    by (simp add: page_feeds_facts)
qed

subsection \<open>Listing: the optional arguments\<close>

text \<open>
  C10. \<open>findAll\<close> returns whenever both \<open>feedListDto\<close> and \<open>excludeUserIds\<close> are given,
  and throws a \<open>TypeError\<close> when either one is omitted.
\<close>

theorem findAll_optional_arguments:
  "(\<exists>r. findAll s user (Some dto) (Some ex) = Inr r) \<and>
   findAll s user None excludeUserIds = Inl TypeError \<and>
   findAll s user feedListDto None = Inl TypeError"
proof -
  have "findAll s user None excludeUserIds = Inl TypeError"
    by (cases excludeUserIds) (simp_all add: findAll_def)
  moreover have "findAll s user feedListDto None = Inl TypeError"
    by (simp add: findAll_def)
  moreover have "\<exists>r. findAll s user (Some dto) (Some ex) = Inr r"
    by (simp add: findAll_Inr)
  ultimately show ?thesis by blast
qed

subsection \<open>Reading one feed\<close>




lemma set_tag_filter: "set (tag_filter s dto fs) \<subseteq> set fs"
  by (auto simp: tag_filter_def split: option.splits)

lemma findAll_items_fetched:
  assumes "findAll s user feedListDto excludeUserIds = Inr r" "vo \<in> set (items r)"
  obtains dto ex where "feedListDto = Some dto" "excludeUserIds = Some ex"
    "vo = hydrate s (vo_feed vo) (Some (user_id user))"
    "vo_feed vo \<in> set (findAll_getMany s ex)"
proof -
  from assms(1) obtain dto ex where o: "feedListDto = Some dto" "excludeUserIds = Some ex"
    by (auto simp: findAll_def split: option.splits)
  from assms(1) have "items r = js_slice (map (\<lambda>item. hydrate s item (Some (user_id user)))
      (tag_filter s dto (findAll_getMany s ex)))
      ((page dto - 1) * limit dto) ((page dto - 1) * limit dto + limit dto)"
    unfolding o findAll_Inr by (auto simp: generatePaginatedResponse_def)
  with assms(2) have "vo \<in> set (map (\<lambda>item. hydrate s item (Some (user_id user)))
      (tag_filter s dto (findAll_getMany s ex)))"
    using set_js_slice by fastforce
  then obtain g where g: "g \<in> set (tag_filter s dto (findAll_getMany s ex))"
      "vo = hydrate s g (Some (user_id user))" by auto
  from g(2) have "vo_feed vo = g" by (simp add: vo_feed_hydrate)
  with g set_tag_filter [of s dto "findAll_getMany s ex"] o that show thesis by auto
qed


lemmas ex_defs = ex_db_def ex_feed_def hidden_feed_def ex_user_def ex_list_dto_def

lemmas read_defs = findUser_def findFeed_def getOneFeed_def findTagByName_def findTagById_def
  get_feed_tags_def get_feed_images_def get_feed_like_by_user_def
  get_feed_bookmark_by_user_def truthy_id_def hydrate_def processFeedItem_def
  findOneFeed_def findOneByUser_def


subsection \<open>The order of the attached images\<close>

text \<open>
  C8, as the claim states it, fails: feed \<open>1\<close> of the example store has its image rows
  stored with \<open>sortOrder\<close> \<open>2\<close> before \<open>1\<close>, and \<open>findOneFeed\<close> attaches them in that
  order.
\<close>

theorem feedImages_sorted_counterexample:
  "findOneFeed ex_db 1 = Inr (hydrate ex_db ex_feed None) \<and>
   map sortOrder (vo_feedImages (hydrate ex_db ex_feed None)) = [2, 1] \<and>
   \<not> sorted (map sortOrder (vo_feedImages (hydrate ex_db ex_feed None)))"
  by (simp add: read_defs ex_defs)

text \<open>
  C8, amended. The image list that \<open>processFeedItem\<close> attaches (and with it
  \<open>findOneFeed\<close>, \<open>findOneByUser\<close> and every item of \<open>findAll\<close>) is the list of the feed's
  image rows in storage order; it is ascending in \<open>sortOrder\<close> exactly when the stored
  rows of the feed are.
\<close>

theorem feedImages_in_stored_order:
  "(processFeedItem s item u = Inr vo \<or> findOneFeed s feedId = Inr vo \<or>
    findOneByUser s user feedId = Inr vo \<or>
    (\<exists>r. findAll s user feedListDto excludeUserIds = Inr r \<and> vo \<in> set (items r))) \<longrightarrow>
   vo_feedImages vo = filter (\<lambda>i. img_feedId i = feed_id (vo_feed vo)) (feedImages s) \<and>
   sorted (map sortOrder (vo_feedImages vo)) =
     sorted (map sortOrder (filter (\<lambda>i. img_feedId i = feed_id (vo_feed vo)) (feedImages s)))"
proof -
  have h: "vo_feedImages (hydrate s g w) =
      filter (\<lambda>i. img_feedId i = feed_id (vo_feed (hydrate s g w))) (feedImages s)" for g w
    by (simp add: hydrate_def get_feed_images_def)
  have p: "vo_feedImages vo = filter (\<lambda>i. img_feedId i = feed_id (vo_feed vo)) (feedImages s)"
    if "processFeedItem s it w = Inr vo" for it w
    using that h by (auto simp: processFeedItem_def split: option.splits)
  have f: "vo_feedImages vo = filter (\<lambda>i. img_feedId i = feed_id (vo_feed vo)) (feedImages s)"
    if r: "findAll s user feedListDto excludeUserIds = Inr r" and vo: "vo \<in> set (items r)" for r
  proof -
    from r vo have "vo = hydrate s (vo_feed vo) (Some (user_id user))"
      by (rule findAll_items_fetched)
    then obtain g where g: "vo = hydrate s g (Some (user_id user))" ..
    show ?thesis unfolding g by (rule h)
  qed
  have "vo_feedImages vo = filter (\<lambda>i. img_feedId i = feed_id (vo_feed vo)) (feedImages s)"
    if "processFeedItem s item u = Inr vo \<or> findOneFeed s feedId = Inr vo \<or>
        findOneByUser s user feedId = Inr vo \<or>
        (\<exists>r. findAll s user feedListDto excludeUserIds = Inr r \<and> vo \<in> set (items r))"
    using that p f unfolding findOneFeed_def findOneByUser_def by blast
  then show ?thesis by simp
qed

theorem feedImages_in_stored_order_witness:
  "findOneFeed ex_db 2 = Inr (hydrate ex_db hidden_feed None) \<and>
   map sortOrder (vo_feedImages (hydrate ex_db hidden_feed None)) = [1, 2] \<and>
   sorted (map sortOrder (vo_feedImages (hydrate ex_db hidden_feed None)))"
proof -
  have a: "findOneFeed ex_db 2 = Inr (hydrate ex_db hidden_feed None)"
    by (simp add: read_defs ex_defs)
  have b: "map sortOrder (filter (\<lambda>i. img_feedId i = feed_id (vo_feed (hydrate ex_db hidden_feed None)))
      (feedImages ex_db)) = [1, 2]"
    by (simp add: read_defs ex_defs)
  from feedImages_in_stored_order [of ex_db None None "hydrate ex_db hidden_feed None" 2
      ex_user None None] a
  have "vo_feedImages (hydrate ex_db hidden_feed None) =
      filter (\<lambda>i. img_feedId i = feed_id (vo_feed (hydrate ex_db hidden_feed None))) (feedImages ex_db)"
    by blast
  with a b show ?thesis by simp
qed

subsection \<open>Lookups after a save\<close>

lemma find_SomeD: "find P xs = Some x \<Longrightarrow> x \<in> set xs \<and> P x"
  by (induction xs) (auto split: if_splits)

lemma getOneFeed_SomeD:
  "getOneFeed s i = Some g \<Longrightarrow> g \<in> set (feeds s) \<and> feed_id g = i \<and> findUser s (userId g) \<noteq> None"
  unfolding getOneFeed_def by (drule find_SomeD) simp

lemma find_map_replace:
  assumes "x \<in> set xs" "k x = i" "k y = i" "Q y"
  shows "find (\<lambda>r. k r = i \<and> Q r) (map (\<lambda>r. if k r = k y then y else r) xs) = Some y"
  using assms(1,2)
proof (induction xs)
  case Nil
  then show ?case by simp
next
  case (Cons a xs)
  show ?case
  proof (cases "k a = i")
    case True
    with assms(3,4) show ?thesis by simp
  next
    case False
    with Cons.prems have "x \<in> set xs" by auto
    then have "find (\<lambda>r. k r = i \<and> Q r) (map (\<lambda>r. if k r = k y then y else r) xs) = Some y"
      using Cons.prems(2) by (rule Cons.IH)
    with False assms(3) show ?thesis by simp
  qed
qed

lemma getOneFeed_saveFeed:
  assumes "g \<in> set (feeds s)" "feed_id g = i" "feed_id g' = i" "findUser s (userId g') \<noteq> None"
  shows "getOneFeed (saveFeed g' s) i = Some g'"
proof -
  have u: "findUser (saveFeed g' s) j = findUser s j" for j
    by (simp add: findUser_def saveFeed_def)
  show ?thesis
    unfolding getOneFeed_def u
    using find_map_replace [of g "feeds s" feed_id i g' "\<lambda>r. findUser s (userId r) \<noteq> None"] assms
    by (simp add: saveFeed_def)
qed

lemma find_key_map_replace:
  "find (\<lambda>r. k r = k y) xs \<noteq> None \<Longrightarrow>
   find (\<lambda>r. k r = k y) (map (\<lambda>r. if k r = k y then y else r) xs) = Some y"
  by (induction xs) auto

lemma find_key_map_replace_other:
  "j \<noteq> k y \<Longrightarrow>
   find (\<lambda>r. k r = j) (map (\<lambda>r. if k r = k y then y else r) xs) = find (\<lambda>r. k r = j) xs"
  by (induction xs) auto

lemma findUser_saveUser:
  "findUser s (user_id a) \<noteq> None \<Longrightarrow> findUser (saveUser a s) (user_id a) = Some a"
  unfolding findUser_def saveUser_def by (simp add: find_key_map_replace)

lemma findUser_saveUser_other:
  "j \<noteq> user_id a \<Longrightarrow> findUser (saveUser a s) j = findUser s j"
  unfolding findUser_def saveUser_def by (simp add: find_key_map_replace_other)

lemma findUser_saveUser_None:
  "(findUser (saveUser a s) j = None) = (findUser s j = None)"
proof (cases "j = user_id a")
  case True
  show ?thesis
  proof (cases "findUser s (user_id a)")
    case None
    then have "\<forall>r \<in> set (users s). user_id r \<noteq> user_id a"
      by (simp add: findUser_def find_None_iff)
    then have "map (\<lambda>r. if user_id r = user_id a then a else r) (users s) = users s"
      by (simp add: map_idI)
    then have "saveUser a s = s" by (simp add: saveUser_def)
    then show ?thesis by simp
  next
    case (Some b)
    then have "findUser (saveUser a s) (user_id a) = Some a" by (simp add: findUser_saveUser)
    with Some True show ?thesis by simp
  qed
next
  case False
  then show ?thesis by (simp add: findUser_saveUser_other)
qed

lemma findUser_SomeD: "findUser s i = Some a \<Longrightarrow> user_id a = i"
  unfolding findUser_def by (drule find_SomeD) simp

subsection \<open>Likes and the like counter\<close>

lemma likeFeed_Inr:
  assumes "getOneFeed s f = Some g"
  shows "likeFeed u f s =
     Inr (saveFeed (g\<lparr>likeCount := likeCount g + 1\<rparr>)
            (s\<lparr>feedLikes := feedLikes s @ [\<lparr>like_feedId = f, like_userId = u\<rparr>]\<rparr>))"
proof -
  have "getOneFeed (s\<lparr>feedLikes := feedLikes s @ [\<lparr>like_feedId = f, like_userId = u\<rparr>]\<rparr>) f
      = Some g"
    using assms by (simp add: getOneFeed_def findUser_def)
  then show ?thesis
    by (simp add: likeFeed_def Let_def findOneFeed_def processFeedItem_def vo_feed_hydrate)
qed

lemma likeFeed_Inl: "getOneFeed s f = None \<Longrightarrow> likeFeed u f s = Inl TypeError"
  by (simp add: likeFeed_def Let_def findOneFeed_def processFeedItem_def getOneFeed_def
      findUser_def)

lemma deleteLikeFeed_Inr:
  assumes "getOneFeed s f = Some g"
  shows "deleteLikeFeed u f s =
     Inr (saveFeed (g\<lparr>likeCount := likeCount g - 1\<rparr>)
            (s\<lparr>feedLikes :=
                 filter (\<lambda>l. \<not> (like_feedId l = f \<and> like_userId l = u)) (feedLikes s)\<rparr>))"
proof -
  have "getOneFeed (s\<lparr>feedLikes :=
      filter (\<lambda>l. \<not> (like_feedId l = f \<and> like_userId l = u)) (feedLikes s)\<rparr>) f = Some g"
    using assms by (simp add: getOneFeed_def findUser_def)
  then show ?thesis
    by (simp add: deleteLikeFeed_def Let_def findOneFeed_def processFeedItem_def vo_feed_hydrate)
qed

lemma deleteLikeFeed_Inl: "getOneFeed s f = None \<Longrightarrow> deleteLikeFeed u f s = Inl TypeError"
  by (simp add: deleteLikeFeed_def Let_def findOneFeed_def processFeedItem_def getOneFeed_def
      findUser_def)

lemma consistent_saveFeedI:
  assumes "\<forall>r \<in> set (feeds s). feed_id r \<noteq> feed_id g \<longrightarrow> likeCount r = int (like_rows s (feed_id r))"
    and "likeCount g = int (like_rows s (feed_id g))"
  shows "likeCount_consistent (saveFeed g s)"
  unfolding likeCount_consistent_def list_all_iff
  using assms by (auto simp: saveFeed_def like_rows_def)

lemma length_filter_removed:
  "length (filter A (filter (\<lambda>x. \<not> (A x \<and> B x)) xs)) + length (filter (\<lambda>x. A x \<and> B x) xs) =
     length (filter A xs)"
  by (induction xs) auto

lemma filter_removed_other:
  "(\<And>x. C x \<Longrightarrow> \<not> A x) \<Longrightarrow> filter C (filter (\<lambda>x. \<not> (A x \<and> B x)) xs) = filter C xs"
  by (induction xs) auto

lemma like_rows_after_delete:
  "like_rows (s\<lparr>feedLikes :=
       filter (\<lambda>l. \<not> (like_feedId l = f \<and> like_userId l = u)) (feedLikes s)\<rparr>) i =
     like_rows s i - (if i = f then user_like_rows s u f else 0)"
proof (cases "i = f")
  case True
  have "length (filter (\<lambda>l. like_feedId l = f)
          (filter (\<lambda>l. \<not> (like_feedId l = f \<and> like_userId l = u)) (feedLikes s))) +
        length (filter (\<lambda>l. like_feedId l = f \<and> like_userId l = u) (feedLikes s)) =
        length (filter (\<lambda>l. like_feedId l = f) (feedLikes s))"
    by (rule length_filter_removed)
  then show ?thesis
    using True unfolding like_rows_def user_like_rows_def by simp
next
  case False
  have "filter (\<lambda>l. like_feedId l = i)
          (filter (\<lambda>l. \<not> (like_feedId l = f \<and> like_userId l = u)) (feedLikes s)) =
        filter (\<lambda>l. like_feedId l = i) (feedLikes s)"
    by (rule filter_removed_other) (use False in simp)
  then show ?thesis using False unfolding like_rows_def by simp
qed

lemma user_like_rows_le: "user_like_rows s u f \<le> like_rows s f"
  unfolding user_like_rows_def like_rows_def
  using length_filter_removed [of "\<lambda>l. like_feedId l = f" "\<lambda>l. like_userId l = u" "feedLikes s"]
  by simp

lemma likeFeed_consistent:
  assumes "likeCount_consistent s" "likeFeed u f s = Inr s'"
  shows "likeCount_consistent s'"
proof (cases "getOneFeed s f")
  case None
  with assms(2) show ?thesis by (simp add: likeFeed_Inl)
next
  case (Some g)
  let ?s1 = "s\<lparr>feedLikes := feedLikes s @ [\<lparr>like_feedId = f, like_userId = u\<rparr>]\<rparr>"
  let ?g = "g\<lparr>likeCount := likeCount g + 1\<rparr>"
  from Some have g: "g \<in> set (feeds s)" "feed_id g = f" by (auto dest: getOneFeed_SomeD)
  from assms(1) have inv: "\<forall>r \<in> set (feeds s). likeCount r = int (like_rows s (feed_id r))"
    by (simp add: likeCount_consistent_def list_all_iff)
  have rows: "like_rows ?s1 i = like_rows s i + (if i = f then 1 else 0)" for i
    by (simp add: like_rows_def)
  have "likeCount_consistent (saveFeed ?g ?s1)"
  proof (rule consistent_saveFeedI)
    show "\<forall>r \<in> set (feeds ?s1). feed_id r \<noteq> feed_id ?g \<longrightarrow>
        likeCount r = int (like_rows ?s1 (feed_id r))"
      using inv g by (simp add: rows)
    show "likeCount ?g = int (like_rows ?s1 (feed_id ?g))"
      using inv g by (simp add: rows)
  qed
  with assms(2) Some show ?thesis by (simp add: likeFeed_Inr)
qed

lemma deleteLikeFeed_consistent:
  assumes "likeCount_consistent s" "deleteLikeFeed u f s = Inr s'" "user_like_rows s u f = 1"
  shows "likeCount_consistent s'"
proof (cases "getOneFeed s f")
  case None
  with assms(2) show ?thesis by (simp add: deleteLikeFeed_Inl)
next
  case (Some g)
  let ?s1 = "s\<lparr>feedLikes :=
      filter (\<lambda>l. \<not> (like_feedId l = f \<and> like_userId l = u)) (feedLikes s)\<rparr>"
  let ?g = "g\<lparr>likeCount := likeCount g - 1\<rparr>"
  from Some have g: "g \<in> set (feeds s)" "feed_id g = f" by (auto dest: getOneFeed_SomeD)
  from assms(1) have inv: "\<forall>r \<in> set (feeds s). likeCount r = int (like_rows s (feed_id r))"
    by (simp add: likeCount_consistent_def list_all_iff)
  have pos: "1 \<le> like_rows s f" using user_like_rows_le [of s u f] assms(3) by simp
  have "likeCount_consistent (saveFeed ?g ?s1)"
  proof (rule consistent_saveFeedI)
    show "\<forall>r \<in> set (feeds ?s1). feed_id r \<noteq> feed_id ?g \<longrightarrow>
        likeCount r = int (like_rows ?s1 (feed_id r))"
      using inv g unfolding like_rows_after_delete by simp
    show "likeCount ?g = int (like_rows ?s1 (feed_id ?g))"
      using inv g pos unfolding like_rows_after_delete by (simp add: assms(3))
  qed
  with assms(2) Some show ?thesis by (simp add: deleteLikeFeed_Inr)
qed

text \<open>
  C3, as the claim states it, fails: in the example store, where the counter of feed \<open>1\<close>
  agrees with its (zero) like rows and user \<open>7\<close> has no like row for it,
  \<open>deleteLikeFeed\<close> still decrements the counter, to \<open>- 1\<close>.
\<close>

theorem deleteLikeFeed_consistent_counterexample:
  "likeCount_consistent ex_db \<and> user_like_rows ex_db 7 1 = 0 \<and>
   deleteLikeFeed 7 1 ex_db = Inr unliked_db \<and> \<not> likeCount_consistent unliked_db"
  by (simp add: likeCount_consistent_def like_rows_def user_like_rows_def deleteLikeFeed_def
      unliked_db_def saveFeed_def read_defs ex_defs)

text \<open>
  C3, amended. The invariant \<open>likeCount\<close> = number of like rows is preserved by every
  \<open>likeFeed\<close> transaction, and by every \<open>deleteLikeFeed\<close> transaction that starts with
  exactly one like row of the user for the feed. Both transactions complete whenever the
  feed (with its author) is found.
\<close>

theorem likeCount_consistent_preserved:
  assumes "likeCount_consistent s"
  shows "(likeFeed u f s = Inr s' \<longrightarrow> likeCount_consistent s') \<and>
         (deleteLikeFeed u f s = Inr s' \<and> user_like_rows s u f = 1 \<longrightarrow>
            likeCount_consistent s') \<and>
         (getOneFeed s f \<noteq> None \<longrightarrow>
            (\<exists>t. likeFeed u f s = Inr t) \<and> (\<exists>t. deleteLikeFeed u f s = Inr t))"
proof -
  have 1: "likeCount_consistent s'" if "likeFeed u f s = Inr s'"
    using assms that by (rule likeFeed_consistent)
  have 2: "likeCount_consistent s'"
    if "deleteLikeFeed u f s = Inr s' \<and> user_like_rows s u f = 1"
    using assms that by (blast intro: deleteLikeFeed_consistent)
  have 3: "(\<exists>t. likeFeed u f s = Inr t) \<and> (\<exists>t. deleteLikeFeed u f s = Inr t)"
    if "getOneFeed s f \<noteq> None"
  proof -
    from that obtain g where "getOneFeed s f = Some g" by blast
    then show ?thesis by (simp add: likeFeed_Inr deleteLikeFeed_Inr)
  qed
  from 1 2 3 show ?thesis by blast
qed

theorem likeCount_consistent_preserved_witness:
  "likeCount_consistent ex_db \<and> likeFeed 7 1 ex_db = Inr liked_db \<and>
   likeCount_consistent liked_db \<and> user_like_rows liked_db 7 1 = 1 \<and>
   deleteLikeFeed 7 1 liked_db = Inr ex_db"
proof -
  have a: "likeCount_consistent ex_db"
    by (simp add: likeCount_consistent_def like_rows_def ex_defs)
  have b: "likeFeed 7 1 ex_db = Inr liked_db"
    by (simp add: likeFeed_def liked_db_def saveFeed_def read_defs ex_defs)
  have c: "user_like_rows liked_db 7 1 = 1"
    by (simp add: user_like_rows_def liked_db_def)
  have d: "deleteLikeFeed 7 1 liked_db = Inr ex_db"
    by (simp add: deleteLikeFeed_def liked_db_def saveFeed_def read_defs ex_defs)
  from likeCount_consistent_preserved [OF a, of 7 1 liked_db] b
  have e: "likeCount_consistent liked_db" by blast
  from likeCount_consistent_preserved [OF e, of 7 1 ex_db] c d
  have "likeCount_consistent ex_db" by blast
  with a b c d e show ?thesis by blast
qed

text \<open>
  C7. When the feed is found and the user has no like row for it, \<open>likeFeed\<close> followed by
  \<open>deleteLikeFeed\<close> both complete; in between the counter is one higher; afterwards the
  feed is read with its original counter, the user has no like row for the feed, and the
  like table is the original one.
\<close>

theorem like_then_unlike_round_trip:
  assumes "getOneFeed s f = Some g" "\<not> get_feed_like_by_user s u f"
  shows "\<exists>s1 s2. likeFeed u f s = Inr s1 \<and> deleteLikeFeed u f s1 = Inr s2 \<and>
           getOneFeed s1 f = Some (g\<lparr>likeCount := likeCount g + 1\<rparr>) \<and>
           getOneFeed s2 f = Some g \<and> likeCount (vo_feed (projr (findOneFeed s2 f))) = likeCount g \<and>
           \<not> get_feed_like_by_user s2 u f \<and> feedLikes s2 = feedLikes s"
proof -
  let ?l1 = "s\<lparr>feedLikes := feedLikes s @ [\<lparr>like_feedId = f, like_userId = u\<rparr>]\<rparr>"
  let ?g1 = "g\<lparr>likeCount := likeCount g + 1\<rparr>"
  let ?s1 = "saveFeed ?g1 ?l1"
  let ?l2 = "?s1\<lparr>feedLikes :=
      filter (\<lambda>l. \<not> (like_feedId l = f \<and> like_userId l = u)) (feedLikes ?s1)\<rparr>"
  let ?s2 = "saveFeed (?g1\<lparr>likeCount := likeCount ?g1 - 1\<rparr>) ?l2"
  from assms(1) have g: "g \<in> set (feeds s)" "feed_id g = f" "findUser s (userId g) \<noteq> None"
    by (auto dest: getOneFeed_SomeD)
  have 1: "likeFeed u f s = Inr ?s1" using assms(1) by (rule likeFeed_Inr)
  have u1: "findUser ?l1 j = findUser s j" for j by (simp add: findUser_def)
  have g1: "getOneFeed ?s1 f = Some ?g1"
    by (rule getOneFeed_saveFeed [of g]) (use g u1 in simp_all)
  then have 2: "deleteLikeFeed u f ?s1 = Inr ?s2" by (rule deleteLikeFeed_Inr)
  have restored: "?g1\<lparr>likeCount := likeCount ?g1 - 1\<rparr> = g" by simp
  have m: "?g1 \<in> set (feeds ?l2)" using g1 by (auto dest: getOneFeed_SomeD)
  have u2: "findUser ?l2 j = findUser s j" for j by (simp add: findUser_def saveFeed_def)
  have g2: "getOneFeed ?s2 f = Some g"
    unfolding restored by (rule getOneFeed_saveFeed [of ?g1]) (use m g u2 in simp_all)
  then have c: "likeCount (vo_feed (projr (findOneFeed ?s2 f))) = likeCount g"
    by (simp add: findOneFeed_def processFeedItem_def vo_feed_hydrate)
  from assms(2) have no: "\<forall>l \<in> set (feedLikes s). \<not> (like_feedId l = f \<and> like_userId l = u)"
    by (simp add: get_feed_like_by_user_def list_ex_iff)
  then have "filter (\<lambda>l. \<not> (like_feedId l = f \<and> like_userId l = u)) (feedLikes s) = feedLikes s"
    by (simp add: filter_id_conv)
  then have likes: "feedLikes ?s2 = feedLikes s" by (simp add: saveFeed_def)
  with assms(2) have 3: "\<not> get_feed_like_by_user ?s2 u f"
    by (simp add: get_feed_like_by_user_def)
  from 1 2 g1 g2 c 3 likes show ?thesis by blast
qed

theorem like_then_unlike_round_trip_witness:
  "getOneFeed ex_db 1 = Some ex_feed \<and> \<not> get_feed_like_by_user ex_db 7 1 \<and>
   likeFeed 7 1 ex_db = Inr liked_db \<and> deleteLikeFeed 7 1 liked_db = Inr ex_db \<and>
   getOneFeed liked_db 1 = Some (ex_feed\<lparr>likeCount := 1\<rparr>) \<and>
   likeCount (vo_feed (projr (findOneFeed ex_db 1))) = likeCount ex_feed \<and>
   \<not> get_feed_like_by_user ex_db 7 1"
proof -
  have a: "getOneFeed ex_db 1 = Some ex_feed" "\<not> get_feed_like_by_user ex_db 7 1"
    by (simp_all add: read_defs ex_defs)
  have b: "likeFeed 7 1 ex_db = Inr liked_db"
    by (simp add: likeFeed_def liked_db_def saveFeed_def read_defs ex_defs)
  have d: "deleteLikeFeed 7 1 liked_db = Inr ex_db"
    by (simp add: deleteLikeFeed_def liked_db_def saveFeed_def read_defs ex_defs)
  have e: "likeCount ex_feed + 1 = 1" by (simp add: ex_feed_def)
  from like_then_unlike_round_trip [OF a] obtain s1 s2 where
    r: "likeFeed 7 1 ex_db = Inr s1" "deleteLikeFeed 7 1 s1 = Inr s2"
       "getOneFeed s1 1 = Some (ex_feed\<lparr>likeCount := likeCount ex_feed + 1\<rparr>)"
       "likeCount (vo_feed (projr (findOneFeed s2 1))) = likeCount ex_feed"
    by blast
  from r(1) b have s1: "s1 = liked_db" by simp
  with r(2) d have s2: "s2 = ex_db" by simp
  from a b d r(3,4) show ?thesis unfolding s1 s2 e by blast
qed

subsection \<open>Status changes and the feed counter\<close>

lemma getOneFeed_saveUser: "getOneFeed (saveUser a s) i = getOneFeed s i"
proof -
  have "(findUser (saveUser a s) j \<noteq> None) = (findUser s j \<noteq> None)" for j
    by (simp add: findUser_saveUser_None)
  moreover have "feeds (saveUser a s) = feeds s" by (simp add: saveUser_def)
  ultimately show ?thesis by (simp add: getOneFeed_def)
qed

lemma findUser_saveFeed: "findUser (saveFeed g s) j = findUser s j"
  by (simp add: findUser_def saveFeed_def)

lemma updateFeedStatus_Inr:
  assumes "getOneFeed s i = Some g" "findUser s (userId g) = Some a"
  shows "updateFeedStatus i dto s =
     Inr (g\<lparr>status := update_status dto\<rparr>,
          saveUser (a\<lparr>feedCount := feedCount a + (if update_status dto = ACTIVE then 1 else - 1)\<rparr>)
            (saveFeed (g\<lparr>status := update_status dto\<rparr>) s))"
  using assms
  by (simp add: updateFeedStatus_def findOneFeed_def processFeedItem_def vo_feed_hydrate
      Let_def findUser_saveFeed)

text \<open>
  C5, as the claim states it, fails: feed \<open>1\<close> of the example store is \<open>ACTIVE\<close> and its
  author has \<open>feedCount = 1\<close>; setting the status to \<open>ACTIVE\<close> again leaves the status as
  it was and still raises the counter to \<open>2\<close>.
\<close>

theorem updateFeedStatus_same_status_counterexample:
  "getOneFeed ex_db 1 = Some ex_feed \<and> status ex_feed = ACTIVE \<and>
   findUser ex_db 7 = Some \<lparr>user_id = 7, feedCount = 1\<rparr> \<and>
   updateFeedStatus 1 \<lparr>update_status = ACTIVE\<rparr> ex_db = Inr (ex_feed, recounted_db) \<and>
   findUser recounted_db 7 = Some \<lparr>user_id = 7, feedCount = 2\<rparr>"
  by (simp add: updateFeedStatus_def recounted_db_def saveFeed_def saveUser_def Let_def
      read_defs ex_defs)

text \<open>
  C5, amended. For a feed that is found (with its author), \<open>updateFeedStatus\<close> completes,
  sets the status to the target status, and adjusts the author's \<open>feedCount\<close> by exactly
  one on every call: up when the target status is \<open>ACTIVE\<close>, down otherwise, whether or
  not the target status differs from the old one.
\<close>

theorem updateFeedStatus_adjusts_on_every_call:
  assumes "getOneFeed s feedId = Some g"
  shows "\<exists>a s'. findUser s (userId g) = Some a \<and>
           updateFeedStatus feedId dto s = Inr (g\<lparr>status := update_status dto\<rparr>, s') \<and>
           getOneFeed s' feedId = Some (g\<lparr>status := update_status dto\<rparr>) \<and>
           findUser s' (userId g) =
             Some (a\<lparr>feedCount := feedCount a + (if update_status dto = ACTIVE then 1 else - 1)\<rparr>)"
proof -
  let ?g = "g\<lparr>status := update_status dto\<rparr>"
  from assms have g: "g \<in> set (feeds s)" "feed_id g = feedId" "findUser s (userId g) \<noteq> None"
    by (auto dest: getOneFeed_SomeD)
  then obtain a where a: "findUser s (userId g) = Some a" by blast
  let ?a = "a\<lparr>feedCount := feedCount a + (if update_status dto = ACTIVE then 1 else - 1)\<rparr>"
  let ?s = "saveUser ?a (saveFeed ?g s)"
  from a have ia: "user_id a = userId g" by (rule findUser_SomeD)
  have 1: "updateFeedStatus feedId dto s = Inr (?g, ?s)"
    using assms a by (rule updateFeedStatus_Inr)
  have "getOneFeed (saveFeed ?g s) feedId = Some ?g"
    by (rule getOneFeed_saveFeed [of g]) (use g in simp_all)
  then have 2: "getOneFeed ?s feedId = Some ?g" by (simp only: getOneFeed_saveUser)
  have "findUser (saveFeed ?g s) (user_id ?a) \<noteq> None"
    using a ia by (simp add: findUser_saveFeed)
  then have "findUser ?s (user_id ?a) = Some ?a" by (rule findUser_saveUser)
  then have 3: "findUser ?s (userId g) = Some ?a" using ia by simp
  from a 1 2 3 show ?thesis by blast
qed

theorem updateFeedStatus_adjusts_on_every_call_witness:
  "getOneFeed ex_db 1 = Some ex_feed \<and>
   (\<exists>s'. updateFeedStatus 1 \<lparr>update_status = DELETED\<rparr> ex_db =
           Inr (ex_feed\<lparr>status := DELETED\<rparr>, s') \<and>
         getOneFeed s' 1 = Some (ex_feed\<lparr>status := DELETED\<rparr>) \<and>
         findUser s' 7 = Some \<lparr>user_id = 7, feedCount = 0\<rparr>)"
proof -
  have a: "getOneFeed ex_db 1 = Some ex_feed" by (simp add: read_defs ex_defs)
  have u: "findUser ex_db (userId ex_feed) = Some \<lparr>user_id = 7, feedCount = 1\<rparr>"
      "userId ex_feed = 7"
    by (simp_all add: read_defs ex_defs)
  from updateFeedStatus_adjusts_on_every_call [OF a, of "\<lparr>update_status = DELETED\<rparr>"]
  obtain b s' where r: "findUser ex_db (userId ex_feed) = Some b"
      "updateFeedStatus 1 \<lparr>update_status = DELETED\<rparr> ex_db =
         Inr (ex_feed\<lparr>status := update_status \<lparr>update_status = DELETED\<rparr>\<rparr>, s')"
      "getOneFeed s' 1 = Some (ex_feed\<lparr>status := update_status \<lparr>update_status = DELETED\<rparr>\<rparr>)"
      "findUser s' (userId ex_feed) =
         Some (b\<lparr>feedCount := feedCount b +
           (if update_status \<lparr>update_status = DELETED\<rparr> = ACTIVE then 1 else - 1)\<rparr>)"
    by blast
  from r(1) u(1) have b: "b = \<lparr>user_id = 7, feedCount = 1\<rparr>" by simp
  from r(2,3,4) have
      "updateFeedStatus 1 \<lparr>update_status = DELETED\<rparr> ex_db = Inr (ex_feed\<lparr>status := DELETED\<rparr>, s')"
      "getOneFeed s' 1 = Some (ex_feed\<lparr>status := DELETED\<rparr>)"
      "findUser s' 7 = Some \<lparr>user_id = 7, feedCount = 0\<rparr>"
    unfolding b u(2) by simp_all
  with a show ?thesis by blast
qed

subsection \<open>Hard delete\<close>

lemma execute_hardDelete:
  "execute (hardDeleteFeed_statements feedId) s =
     deleteFeedRow feedId (deleteFeedBookmarks feedId (deleteFeedLikes feedId
       (deleteFeedImages feedId s)))"
  "execute (take 3 (hardDeleteFeed_statements feedId)) s =
     deleteFeedBookmarks feedId (deleteFeedLikes feedId (deleteFeedImages feedId s))"
  by (simp_all add: execute_def hardDeleteFeed_statements_def)

lemma dependents_deleted:
  "dependent_rows (deleteFeedBookmarks feedId (deleteFeedLikes feedId
     (deleteFeedImages feedId s))) feedId = 0"
  by (simp add: dependent_rows_def deleteFeedBookmarks_def deleteFeedLikes_def
      deleteFeedImages_def)

lemma dependent_rows_deleteFeedRow:
  "dependent_rows (deleteFeedRow feedId s) i = dependent_rows s i"
  by (simp add: dependent_rows_def deleteFeedRow_def)

lemma dependent_rows_saveUser: "dependent_rows (saveUser a s) i = dependent_rows s i"
  by (simp add: dependent_rows_def saveUser_def)

lemma findFeed_deleteFeedRow: "findFeed (deleteFeedRow feedId s) feedId = None"
  by (simp add: findFeed_def deleteFeedRow_def find_None_iff)

lemma two_user_db_facts:
  "findFeed two_user_db 1 = Some (ex_feed\<lparr>likeCount := 1\<rparr>)"
  "userId (ex_feed\<lparr>likeCount := 1\<rparr>) = 7"
  "findUser two_user_db 7 = Some \<lparr>user_id = 7, feedCount = 1\<rparr>"
  "findUser two_user_db 8 = Some \<lparr>user_id = 8, feedCount = 5\<rparr>"
  "dependent_rows two_user_db 1 = 4"
  by (simp_all add: two_user_db_def marked_db_def liked_db_def read_defs ex_defs
      dependent_rows_def)

text \<open>
  Against C6 as stated: \<open>hardDeleteFeed\<close> decrements the counter of the user named by
  its \<open>userId\<close> argument and never reads the feed's \<open>userId\<close> column. Feed \<open>1\<close> belongs to
  user \<open>7\<close>; hard-deleted with \<open>userId = 8\<close>, the feed and its dependent rows are removed,
  the author's \<open>feedCount\<close> is still \<open>1\<close> and that of user \<open>8\<close> went from \<open>5\<close> to \<open>4\<close>.
\<close>

theorem hardDeleteFeed_author_counter_counterexample:
  "findFeed two_user_db 1 = Some (ex_feed\<lparr>likeCount := 1\<rparr>) \<and>
   userId (ex_feed\<lparr>likeCount := 1\<rparr>) = 7 \<and>
   findUser two_user_db 7 = Some \<lparr>user_id = 7, feedCount = 1\<rparr> \<and>
   findUser two_user_db 8 = Some \<lparr>user_id = 8, feedCount = 5\<rparr> \<and>
   hardDeleteFeed 8 1 two_user_db = Inr deleted_by_other_db \<and>
   findFeed deleted_by_other_db 1 = None \<and>
   dependent_rows deleted_by_other_db 1 = 0 \<and>
   findUser deleted_by_other_db 7 = Some \<lparr>user_id = 7, feedCount = 1\<rparr> \<and>
   findUser deleted_by_other_db 8 = Some \<lparr>user_id = 8, feedCount = 4\<rparr>"
  by (simp add: two_user_db_def deleted_by_other_db_def marked_db_def liked_db_def read_defs
      ex_defs hardDeleteFeed_def execute_def hardDeleteFeed_statements_def deleteFeedImages_def
      deleteFeedLikes_def deleteFeedBookmarks_def deleteFeedRow_def saveUser_def
      dependent_rows_def)

text \<open>
  C6, amended. For a stored feed and a \<open>userId\<close> argument whose user row exists,
  \<open>hardDeleteFeed\<close> completes; afterwards no image, like or bookmark row refers to the
  feed, no feed row has its key, the \<open>feedCount\<close> of the user given by \<open>userId\<close> is one
  less, and every other user row, the author's included when the caller is not the
  author, is read as before. The feed row is deleted by the fourth statement: after the
  first three the dependent rows are gone while the feed row is still stored.
\<close>

theorem hardDeleteFeed_removes_feed_and_dependents:
  assumes "findFeed s feedId = Some g" "findUser s uid = Some a"
  shows "\<exists>s'. hardDeleteFeed uid feedId s = Inr s' \<and>
           dependent_rows s' feedId = 0 \<and> findFeed s' feedId = None \<and>
           findUser s' uid = Some (a\<lparr>feedCount := feedCount a - 1\<rparr>) \<and>
           (\<forall>j. j \<noteq> uid \<longrightarrow> findUser s' j = findUser s j) \<and>
           (userId g \<noteq> uid \<longrightarrow> findUser s' (userId g) = findUser s (userId g)) \<and>
           dependent_rows (execute (take 3 (hardDeleteFeed_statements feedId)) s) feedId = 0 \<and>
           findFeed (execute (take 3 (hardDeleteFeed_statements feedId)) s) feedId = Some g \<and>
           execute (hardDeleteFeed_statements feedId) s =
             deleteFeedRow feedId (execute (take 3 (hardDeleteFeed_statements feedId)) s)"
proof -
  let ?t = "deleteFeedBookmarks feedId (deleteFeedLikes feedId (deleteFeedImages feedId s))"
  let ?s4 = "deleteFeedRow feedId ?t"
  let ?a = "a\<lparr>feedCount := feedCount a - 1\<rparr>"
  have u4: "findUser ?s4 j = findUser s j" for j
    by (simp add: findUser_def deleteFeedRow_def deleteFeedBookmarks_def deleteFeedLikes_def
        deleteFeedImages_def)
  have u: "findUser ?s4 uid = Some a" using assms(2) by (simp only: u4)
  then have 1: "hardDeleteFeed uid feedId s = Inr (saveUser ?a ?s4)"
    by (simp add: hardDeleteFeed_def execute_hardDelete)
  have 2: "dependent_rows (saveUser ?a ?s4) feedId = 0"
    by (simp only: dependent_rows_saveUser dependent_rows_deleteFeedRow dependents_deleted)
  have "findFeed (saveUser ?a ?s4) feedId = findFeed ?s4 feedId"
    by (simp add: findFeed_def saveUser_def)
  then have 3: "findFeed (saveUser ?a ?s4) feedId = None"
    by (simp only: findFeed_deleteFeedRow)
  from assms(2) have ia: "user_id a = uid" by (rule findUser_SomeD)
  have "findUser ?s4 (user_id ?a) \<noteq> None" using u ia by simp
  then have "findUser (saveUser ?a ?s4) (user_id ?a) = Some ?a" by (rule findUser_saveUser)
  then have 4: "findUser (saveUser ?a ?s4) uid = Some ?a" using ia by simp
  have o: "findUser (saveUser ?a ?s4) j = findUser s j" if "j \<noteq> uid" for j
  proof -
    from that ia have "j \<noteq> user_id ?a" by simp
    then have "findUser (saveUser ?a ?s4) j = findUser ?s4 j" by (rule findUser_saveUser_other)
    then show ?thesis by (simp only: u4)
  qed
  have 5: "dependent_rows (execute (take 3 (hardDeleteFeed_statements feedId)) s) feedId = 0"
    by (simp only: execute_hardDelete dependents_deleted)
  have 6: "findFeed (execute (take 3 (hardDeleteFeed_statements feedId)) s) feedId = Some g"
    using assms(1) unfolding execute_hardDelete
    by (simp add: findFeed_def deleteFeedBookmarks_def deleteFeedLikes_def deleteFeedImages_def)
  have 7: "execute (hardDeleteFeed_statements feedId) s =
      deleteFeedRow feedId (execute (take 3 (hardDeleteFeed_statements feedId)) s)"
    by (simp only: execute_hardDelete)
  from 1 2 3 4 o 5 6 7 show ?thesis by blast
qed

text \<open>
  Feed \<open>1\<close> of the two-user store hard-deleted by its author, user \<open>7\<close>: the four dependent
  rows and the feed row are gone, the author's \<open>feedCount\<close> goes from \<open>1\<close> to \<open>0\<close> and
  user \<open>8\<close> keeps \<open>5\<close>.
\<close>

theorem hardDeleteFeed_removes_feed_and_dependents_witness:
  "findFeed two_user_db 1 = Some (ex_feed\<lparr>likeCount := 1\<rparr>) \<and>
   findUser two_user_db 7 = Some \<lparr>user_id = 7, feedCount = 1\<rparr> \<and>
   dependent_rows two_user_db 1 = 4 \<and>
   (\<exists>s'. hardDeleteFeed 7 1 two_user_db = Inr s' \<and> dependent_rows s' 1 = 0 \<and>
         findFeed s' 1 = None \<and> findUser s' 7 = Some \<lparr>user_id = 7, feedCount = 0\<rparr> \<and>
         findUser s' 8 = Some \<lparr>user_id = 8, feedCount = 5\<rparr>)"
proof -
  from hardDeleteFeed_removes_feed_and_dependents [OF two_user_db_facts(1) two_user_db_facts(3)]
  obtain s' where s': "hardDeleteFeed 7 1 two_user_db = Inr s'" "dependent_rows s' 1 = 0"
      "findFeed s' 1 = None"
      "findUser s' 7 = Some (\<lparr>user_id = 7, feedCount = 1\<rparr>\<lparr>feedCount := feedCount \<lparr>user_id = 7, feedCount = 1\<rparr> - 1\<rparr>)"
      "\<forall>j. j \<noteq> 7 \<longrightarrow> findUser s' j = findUser two_user_db j"
    by blast
  from s'(5) have "findUser s' 8 = findUser two_user_db 8" by simp
  then have 8: "findUser s' 8 = Some \<lparr>user_id = 8, feedCount = 5\<rparr>"
    by (simp only: two_user_db_facts)
  from s'(4) have 7: "findUser s' 7 = Some \<lparr>user_id = 7, feedCount = 0\<rparr>" by simp
  from s'(1,2,3) 7 8 two_user_db_facts(1,3,5) show ?thesis by blast
qed

subsection \<open>Rounds of callbacks\<close>





subsection \<open>Creation: the three rounds of the tag callbacks\<close>

lemma createFeed_mapper_Await: "\<exists>operation. createFeed_mapper fid t = Await operation"
  by (simp add: createFeed_mapper_def)









subsection \<open>Creation: the rows of the new feed\<close>


















subsection \<open>Update\<close>

text \<open>
  The example of the specification: feed \<open>1\<close> is mapped to \<open>A\<close>, \<open>B\<close>, \<open>C\<close>; updated to
  \<open>B\<close>, \<open>C\<close>, \<open>D\<close> it is mapped to exactly these, the tag \<open>D\<close> has been created and the
  tag \<open>A\<close> is kept. Updated to the empty list it has no mapper row.
\<close>

lemma updateFeed_examples:
  "mapped_tag_names ex_db 1 = [''A'', ''B'', ''C'']"
  "updateFeed 1 (update_dto [''B'', ''C'', ''D'']) 9 ex_db = Some (Inr (updated_feed 9, updated_db))"
  "mapped_tag_names updated_db 1 = [''B'', ''C'', ''D'']"
  "findTagByName updated_db ''A'' = Some \<lparr>tag_id = 1, tagName = ''A''\<rparr>"
  "findTagByName updated_db ''D'' = Some \<lparr>tag_id = 4, tagName = ''D''\<rparr>"
  "updateFeed 1 (update_dto []) 9 ex_db = Some (Inr (updated_feed 9, untagged_db))"
  "mapped_tag_ids untagged_db 1 = []"
  "tags untagged_db = tags ex_db"
  by code_simp+

text \<open>
  C1 does not hold. The callbacks of \<open>Promise.all\<close> all look their tag up before any of
  them inserts one, so a new name that is supplied twice gets two tag rows: from the
  example store, \<open>updateFeed\<close> with the names \<open>D\<close>, \<open>D\<close> stores the tags \<open>4\<close> and \<open>5\<close>, both
  named \<open>D\<close>, and maps the feed to both. The next \<open>updateFeed\<close> of that feed, with the name
  \<open>B\<close> alone, deletes the mapper rows by the tag that the lookup by name returns, which is
  tag \<open>4\<close>; the mapper row of tag \<open>5\<close> stays, and the feed is mapped to \<open>D\<close> and \<open>B\<close>.
\<close>

theorem updateFeed_duplicate_name_leaves_stale_mapper:
  "updateFeed 1 (update_dto [''D'', ''D'']) 9 ex_db = Some (Inr (updated_feed 9, twice_db)) \<and>
   findTagByName ex_db ''D'' = None \<and>
   filter (\<lambda>t. tagName t = ''D'') (tags twice_db) =
     [\<lparr>tag_id = 4, tagName = ''D''\<rparr>, \<lparr>tag_id = 5, tagName = ''D''\<rparr>] \<and>
   mapped_tag_ids twice_db 1 = [4, 5] \<and>
   updateFeed 1 (update_dto [''B'']) 10 twice_db = Some (Inr (updated_feed 10, stale_db)) \<and>
   mapped_tag_ids stale_db 1 = [5, 2] \<and>
   mapped_tag_names stale_db 1 = [''D'', ''B''] \<and>
   set (mapped_tag_names stale_db 1) \<noteq> set [''B'']"
  by code_simp

end
